theory Spec2Isabelle
  imports Main "HOL-Library.AList"
begin

section \<open>JavaScript values\<close>

text \<open>
  The values that flow through \<^verbatim>\<open>tiktok_backend_server.js\<close>: request fields, upstream
  payloads, rejection reasons and the object literals handed to \<^verbatim>\<open>io.emit\<close> and
  \<^verbatim>\<open>res.json\<close>. An object is its list of properties in the order of the literal.
  Strings are the bytes of the source file (UTF-8), so an accented letter is two bytes.
  The source file ends with an older variant of the same server, \<^verbatim>\<open>servidor-tiktok.js\<close>;
  the model follows \<^verbatim>\<open>tiktok_backend_server.js\<close>, the part before it.
\<close>

datatype jsval =
    JUndefined
  | JNull
  | JBool bool
  | JNum int
  | JStr string
  | JObj "(string \<times> jsval) list"

text \<open>\<^verbatim>\<open>obj[p]\<close> on an object: \<^verbatim>\<open>undefined\<close> when the property is absent.\<close>

definition obj_prop :: "(string \<times> jsval) list \<Rightarrow> string \<Rightarrow> jsval" where
  "obj_prop kvs p = (case map_of kvs p of None \<Rightarrow> JUndefined | Some v \<Rightarrow> v)"

text \<open>The \<^verbatim>\<open>TypeError\<close> that V8 throws when a property of \<^verbatim>\<open>undefined\<close> or \<^verbatim>\<open>null\<close> is read.\<close>

definition type_error :: "jsval \<Rightarrow> string \<Rightarrow> jsval" where
  "type_error v p =
     JObj [(''name'', JStr ''TypeError''),
           (''message'', JStr (''Cannot read properties of ''
              @ (if v = JNull then ''null'' else ''undefined'')
              @ '' (reading '' @ [CHR 0x27] @ p @ [CHR 0x27] @ '')''))]"

text \<open>\<^verbatim>\<open>v.p\<close>: \<open>Inl\<close> is the thrown value. A primitive has none of the properties read here.\<close>

fun get_prop :: "jsval \<Rightarrow> string \<Rightarrow> jsval + jsval" where
  "get_prop JUndefined p = Inl (type_error JUndefined p)"
| "get_prop JNull p = Inl (type_error JNull p)"
| "get_prop (JObj kvs) p = Inr (obj_prop kvs p)"
| "get_prop (JBool b) p = Inr JUndefined"
| "get_prop (JNum n) p = Inr JUndefined"
| "get_prop (JStr x) p = Inr JUndefined"

text \<open>\<^verbatim>\<open>v?.p\<close>: \<^verbatim>\<open>undefined\<close> when \<open>v\<close> is \<^verbatim>\<open>undefined\<close> or \<^verbatim>\<open>null\<close>, never a throw.\<close>

definition opt_prop :: "jsval \<Rightarrow> string \<Rightarrow> jsval" where
  "opt_prop v p = (case get_prop v p of Inl e \<Rightarrow> JUndefined | Inr x \<Rightarrow> x)"

section \<open>The server state\<close>

text \<open>
  A listener is one of the eight closures that \<^verbatim>\<open>/api/start-chat\<close> passes to
  \<^verbatim>\<open>tiktokConnection.on\<close>. The six fan-out closures use only their argument; the two
  teardown closures capture \<^verbatim>\<open>username\<close>.
\<close>

datatype listener =
    OnChat | OnMember | OnLike | OnGift | OnShare | OnFollow
  | OnStreamEnd string
  | OnDisconnected string

text \<open>What runs when the promise of \<^verbatim>\<open>connect()\<close> settles.\<close>

datatype continuation =
    StartChatThen string
  | CheckLiveAwait string

datatype promise = NotCalled | Pending continuation | Fulfilled | Rejected

text \<open>
  A \<^verbatim>\<open>WebcastPushConnection\<close> object as the server sees it: the constructor's
  arguments, the listeners in the order of the \<^verbatim>\<open>on\<close> calls, the promise of its
  \<^verbatim>\<open>connect()\<close> and the number of \<^verbatim>\<open>disconnect()\<close> calls received.
\<close>

record conn =
  uniqueId :: string
  options :: "(string \<times> jsval) list"
  listeners :: "(string \<times> listener) list"
  connectPromise :: promise
  disconnectCalls :: nat

text \<open>
  Every effect of a handler, in program order: calls on the upstream collaborator,
  updates of the \<^verbatim>\<open>activeConnections\<close> map, \<^verbatim>\<open>io.emit\<close> broadcasts, HTTP responses,
  and exceptions that leave a handler (\<open>Uncaught\<close> from a synchronous route handler,
  \<open>Unhandled\<close> for a rejected promise nobody handles).
  \<^verbatim>\<open>console.log\<close> and \<^verbatim>\<open>console.error\<close> are left out.
\<close>

datatype effect =
    Construct nat string "(string \<times> jsval) list"
  | RegistrySet string nat
  | RegistryDelete string
  | CallConnect nat
  | CallOn nat string
  | CallDisconnect nat
  | Emit string jsval
  | Respond nat jsval
  | Uncaught jsval
  | Unhandled jsval

text \<open>
  \<^verbatim>\<open>activeConnections\<close> is a JavaScript \<^verbatim>\<open>Map\<close>: an association list in insertion order,
  from username to the connection object (its index in \<open>conns\<close>, the allocation order).
\<close>

record server =
  activeConnections :: "(string \<times> nat) list"
  conns :: "conn list"
  trace :: "effect list"

definition init :: server where
  "init = \<lparr>activeConnections = [], conns = [], trace = []\<rparr>"

section \<open>Primitive actions\<close>

definition seq :: "('s \<Rightarrow> 's) list \<Rightarrow> 's \<Rightarrow> 's" where
  "seq fs s = fold (\<lambda>f. f) fs s"

definition log :: "effect \<Rightarrow> server \<Rightarrow> server" where
  "log e s = s\<lparr>trace := trace s @ [e]\<rparr>"

definition io_emit :: "string \<Rightarrow> jsval \<Rightarrow> server \<Rightarrow> server" where
  "io_emit tag payload = log (Emit tag payload)"

definition res_json :: "nat \<Rightarrow> jsval \<Rightarrow> server \<Rightarrow> server" where
  "res_json code body = log (Respond code body)"

definition new_connection :: "string \<Rightarrow> (string \<times> jsval) list \<Rightarrow> server \<Rightarrow> server" where
  "new_connection u opts s =
     log (Construct (length (conns s)) u opts)
       (s\<lparr>conns := conns s @
            [\<lparr>uniqueId = u, options = opts, listeners = [],
              connectPromise = NotCalled, disconnectCalls = 0\<rparr>]\<rparr>)"

definition upd_conn :: "nat \<Rightarrow> (conn \<Rightarrow> conn) \<Rightarrow> server \<Rightarrow> server" where
  "upd_conn cid f s =
     (if cid < length (conns s) then s\<lparr>conns := (conns s)[cid := f (conns s ! cid)]\<rparr> else s)"

definition registry_has :: "string \<Rightarrow> server \<Rightarrow> bool" where
  "registry_has u s = (u \<in> fst ` set (activeConnections s))"

definition registry_get :: "string \<Rightarrow> server \<Rightarrow> nat option" where
  "registry_get u s = map_of (activeConnections s) u"

definition registry_set :: "string \<Rightarrow> nat \<Rightarrow> server \<Rightarrow> server" where
  "registry_set u cid s =
     log (RegistrySet u cid) (s\<lparr>activeConnections := AList.update u cid (activeConnections s)\<rparr>)"

definition registry_delete :: "string \<Rightarrow> server \<Rightarrow> server" where
  "registry_delete u s =
     log (RegistryDelete u) (s\<lparr>activeConnections := AList.delete u (activeConnections s)\<rparr>)"

definition call_connect :: "nat \<Rightarrow> continuation \<Rightarrow> server \<Rightarrow> server" where
  "call_connect cid k s =
     log (CallConnect cid) (upd_conn cid (\<lambda>c. c\<lparr>connectPromise := Pending k\<rparr>) s)"

definition call_on :: "nat \<Rightarrow> string \<Rightarrow> listener \<Rightarrow> server \<Rightarrow> server" where
  "call_on cid ev l s =
     log (CallOn cid ev) (upd_conn cid (\<lambda>c. c\<lparr>listeners := listeners c @ [(ev, l)]\<rparr>) s)"

definition call_disconnect :: "nat \<Rightarrow> server \<Rightarrow> server" where
  "call_disconnect cid s =
     log (CallDisconnect cid) (upd_conn cid (\<lambda>c. c\<lparr>disconnectCalls := Suc (disconnectCalls c)\<rparr>) s)"

section \<open>\<^verbatim>\<open>new Date().toISOString()\<close>\<close>

text \<open>
  The timestamp of every fan-out payload. \<^verbatim>\<open>new Date()\<close> reads the clock: a time value
  \<open>t\<close>, the milliseconds since 1970-01-01T00:00:00Z, an integer of absolute value at
  most 8.64e15. \<^verbatim>\<open>toISOString\<close> is the function of ECMA-262 (Date.prototype.toISOString
  over the day and time arithmetic of the section "Time Values and Time Range").
\<close>

definition valid_time :: "int \<Rightarrow> bool" where
  "valid_time t = (- 8640000000000000 \<le> t \<and> t \<le> 8640000000000000)"

definition msPerDay :: int where
  "msPerDay = 86400000"

definition Day :: "int \<Rightarrow> int" where
  "Day t = t div msPerDay"

definition DaysInYear :: "int \<Rightarrow> int" where
  "DaysInYear y =
     (if y mod 4 \<noteq> 0 then 365 else if y mod 100 \<noteq> 0 then 366
      else if y mod 400 \<noteq> 0 then 365 else 366)"

definition DayFromYear :: "int \<Rightarrow> int" where
  "DayFromYear y =
     365 * (y - 1970) + (y - 1969) div 4 - (y - 1901) div 100 + (y - 1601) div 400"

text \<open>
  \<open>YearFromTime\<close> is the largest \<open>y\<close> with \<open>DayFromYear y \<le> Day t\<close>. The estimate from the
  mean length of a year (146097 days in 400 years) is off by at most one year.
\<close>

definition YearFromDay :: "int \<Rightarrow> int" where
  "YearFromDay d =
     (let y = 1970 + (400 * d) div 146097
      in if d < DayFromYear y then y - 1
         else if DayFromYear (y + 1) \<le> d then y + 1
         else y)"

definition YearFromTime :: "int \<Rightarrow> int" where
  "YearFromTime t = YearFromDay (Day t)"

definition InLeapYear :: "int \<Rightarrow> int" where
  "InLeapYear t = (if DaysInYear (YearFromTime t) = 366 then 1 else 0)"

definition DayWithinYear :: "int \<Rightarrow> int" where
  "DayWithinYear t = Day t - DayFromYear (YearFromTime t)"

definition MonthFromTime :: "int \<Rightarrow> int" where
  "MonthFromTime t =
     (let d = DayWithinYear t; l = InLeapYear t
      in if d < 31 then 0
         else if d < 59 + l then 1
         else if d < 90 + l then 2
         else if d < 120 + l then 3
         else if d < 151 + l then 4
         else if d < 181 + l then 5
         else if d < 212 + l then 6
         else if d < 243 + l then 7
         else if d < 273 + l then 8
         else if d < 304 + l then 9
         else if d < 334 + l then 10
         else 11)"

definition DateFromTime :: "int \<Rightarrow> int" where
  "DateFromTime t =
     (let d = DayWithinYear t; l = InLeapYear t; m = MonthFromTime t
      in if m = 0 then d + 1
         else if m = 1 then d - 30
         else if m = 2 then d - 58 - l
         else if m = 3 then d - 89 - l
         else if m = 4 then d - 119 - l
         else if m = 5 then d - 150 - l
         else if m = 6 then d - 180 - l
         else if m = 7 then d - 211 - l
         else if m = 8 then d - 242 - l
         else if m = 9 then d - 272 - l
         else if m = 10 then d - 303 - l
         else d - 333 - l)"

definition HourFromTime :: "int \<Rightarrow> int" where
  "HourFromTime t = (t div 3600000) mod 24"

definition MinFromTime :: "int \<Rightarrow> int" where
  "MinFromTime t = (t div 60000) mod 60"

definition SecFromTime :: "int \<Rightarrow> int" where
  "SecFromTime t = (t div 1000) mod 60"

definition msFromTime :: "int \<Rightarrow> int" where
  "msFromTime t = t mod 1000"

definition digit_char :: "nat \<Rightarrow> char" where
  "digit_char n = char_of (48 + n)"

text \<open>The last \<open>k\<close> decimal digits of \<open>n\<close>, padded with zeros.\<close>

fun pad :: "nat \<Rightarrow> nat \<Rightarrow> string" where
  "pad 0 n = []"
| "pad (Suc k) n = pad k (n div 10) @ [digit_char (n mod 10)]"

text \<open>
  \<^verbatim>\<open>YYYY-MM-DDTHH:mm:ss.sssZ\<close>, the year as a sign and six digits when it is not
  within 0 to 9999.
\<close>

definition toISOString :: "int \<Rightarrow> string" where
  "toISOString t =
     (let y = YearFromTime t
      in (if 0 \<le> y \<and> y \<le> 9999 then pad 4 (nat y)
          else (if y < 0 then ''-'' else ''+'') @ pad 6 (nat \<bar>y\<bar>))
         @ ''-'' @ pad 2 (nat (MonthFromTime t + 1))
         @ ''-'' @ pad 2 (nat (DateFromTime t))
         @ ''T'' @ pad 2 (nat (HourFromTime t))
         @ '':'' @ pad 2 (nat (MinFromTime t))
         @ '':'' @ pad 2 (nat (SecFromTime t))
         @ ''.'' @ pad 3 (nat (msFromTime t))
         @ ''Z'')"

subsection \<open>Well-formed ISO-8601 timestamps\<close>

definition is_digit :: "char \<Rightarrow> bool" where
  "is_digit c = (c \<in> set ''0123456789'')"

definition num_of :: "string \<Rightarrow> nat" where
  "num_of cs = foldl (\<lambda>n c. 10 * n + (of_char c - 48)) 0 cs"

definition days_in_month :: "int \<Rightarrow> nat \<Rightarrow> nat" where
  "days_in_month y m =
     (if m = 2 then (if DaysInYear y = 366 then 29 else 28)
      else if m = 4 \<or> m = 6 \<or> m = 9 \<or> m = 11 then 30
      else 31)"

text \<open>
  The part after the year, \<^verbatim>\<open>-MM-DDTHH:mm:ss.sssZ\<close>: the separators in their places, digits
  everywhere else, a month of the calendar, a day of that month in year \<open>y\<close>, and a time
  of day.
\<close>

definition iso_tail_wf :: "int \<Rightarrow> string \<Rightarrow> bool" where
  "iso_tail_wf y r =
     (let mo = take 2 (drop 1 r); da = take 2 (drop 4 r); ho = take 2 (drop 7 r);
          mi = take 2 (drop 10 r); se = take 2 (drop 13 r); ms = take 3 (drop 16 r)
      in length r = 20
         \<and> r ! 0 = CHR ''-'' \<and> r ! 3 = CHR ''-'' \<and> r ! 6 = CHR ''T''
         \<and> r ! 9 = CHR '':'' \<and> r ! 12 = CHR '':'' \<and> r ! 15 = CHR ''.''
         \<and> r ! 19 = CHR ''Z''
         \<and> list_all is_digit (mo @ da @ ho @ mi @ se @ ms)
         \<and> 1 \<le> num_of mo \<and> num_of mo \<le> 12
         \<and> 1 \<le> num_of da \<and> num_of da \<le> days_in_month y (num_of mo)
         \<and> num_of ho < 24 \<and> num_of mi < 60 \<and> num_of se < 60)"

text \<open>
  A calendar date and time in UTC, complete to the millisecond: a four-digit year, or the
  expanded form with a sign and six digits (never \<^verbatim>\<open>-000000\<close>).
\<close>

definition iso8601_wellformed :: "string \<Rightarrow> bool" where
  "iso8601_wellformed s =
     (case s of
        [] \<Rightarrow> False
      | c # cs \<Rightarrow>
          if c = CHR ''+'' \<or> c = CHR ''-'' then
            (let ys = take 6 cs
             in length ys = 6 \<and> list_all is_digit ys
                \<and> \<not> (c = CHR ''-'' \<and> num_of ys = 0)
                \<and> iso_tail_wf ((if c = CHR ''-'' then - 1 else 1) * int (num_of ys)) (drop 6 cs))
          else
            (let ys = take 4 s
             in length ys = 4 \<and> list_all is_digit ys
                \<and> iso_tail_wf (int (num_of ys)) (drop 4 s)))"

section \<open>The route handlers\<close>

text \<open>
  The request field \<^verbatim>\<open>req.body.username\<close> is a string or absent; \<^verbatim>\<open>!username\<close> holds when
  it is absent or empty. What the upstream collaborator does inside a call is an input of
  the handler: the constructor returns or throws, \<^verbatim>\<open>disconnect()\<close> returns, returns a
  promise that rejects later, or throws.
\<close>

datatype ctor_outcome = CtorReturns | CtorThrows jsval

datatype disconnect_outcome = DisconnectReturns | DisconnectRejects jsval | DisconnectThrows jsval

definition a_acute :: string where
  "a_acute = [CHR 0xC3, CHR 0xA1]"

definition o_acute :: string where
  "o_acute = [CHR 0xC3, CHR 0xB3]"

definition inverted_exclamation :: string where
  "inverted_exclamation = [CHR 0xC2, CHR 0xA1]"

definition username_required :: jsval where
  "username_required = JObj [(''error'', JStr ''Username is required'')]"

definition headers_sent :: jsval where
  "headers_sent =
     JObj [(''code'', JStr ''ERR_HTTP_HEADERS_SENT''),
           (''message'', JStr ''Cannot set headers after they are sent to the client'')]"

subsection \<open>\<^verbatim>\<open>GET /\<close>\<close>

definition get_root :: "server \<Rightarrow> server" where
  "get_root s =
     res_json 200
       (JObj [(''status'', JStr ''Server running''),
              (''message'', JStr ''TikTok Live Chat Reader Backend''),
              (''activeConnections'', JNum (int (length (activeConnections s))))]) s"

subsection \<open>\<^verbatim>\<open>POST /api/check-live\<close>\<close>

definition check_live_options :: "(string \<times> jsval) list" where
  "check_live_options = [(''enableExtendedGiftInfo'', JBool True)]"

text \<open>
  The \<^verbatim>\<open>catch\<close> block. \<open>sent\<close> tells whether the response has gone out already, in which
  case \<^verbatim>\<open>res.json\<close> throws and the promise of the handler rejects.
\<close>

definition check_live_catch :: "bool \<Rightarrow> string \<Rightarrow> jsval \<Rightarrow> server \<Rightarrow> server" where
  "check_live_catch sent u e s =
     (case get_prop e ''message'' of
        Inl te \<Rightarrow> log (Unhandled te) s
      | Inr m \<Rightarrow>
          if sent then log (Unhandled headers_sent) s
          else res_json 200
                 (JObj [(''isLive'', JBool False),
                        (''username'', JStr u),
                        (''message'', JStr (''Usuario NO est'' @ a_acute
                            @ '' en vivo o el username es incorrecto'')),
                        (''error'', m)]) s)"

text \<open>Up to \<^verbatim>\<open>await tiktokConnection.connect()\<close>.\<close>

definition check_live :: "string option \<Rightarrow> ctor_outcome \<Rightarrow> server \<Rightarrow> server" where
  "check_live username ctor s =
     (case username of
        None \<Rightarrow> res_json 400 username_required s
      | Some u \<Rightarrow>
          if u = [] then res_json 400 username_required s
          else (case ctor of
                  CtorThrows e \<Rightarrow> check_live_catch False u e s
                | CtorReturns \<Rightarrow>
                    (let cid = length (conns s)
                     in seq [new_connection u check_live_options,
                             call_connect cid (CheckLiveAwait u)] s)))"

text \<open>After the \<^verbatim>\<open>await\<close>, when the connect succeeded.\<close>

definition check_live_fulfilled :: "string \<Rightarrow> nat \<Rightarrow> disconnect_outcome \<Rightarrow> server \<Rightarrow> server" where
  "check_live_fulfilled u cid dout s =
     (let s1 = seq [res_json 200
                      (JObj [(''isLive'', JBool True),
                             (''username'', JStr u),
                             (''message'', JStr (''Usuario est'' @ a_acute @ '' en vivo''))]),
                    call_disconnect cid] s
      in case dout of
           DisconnectReturns \<Rightarrow> s1
         | DisconnectRejects e \<Rightarrow> log (Unhandled e) s1
         | DisconnectThrows e \<Rightarrow> check_live_catch True u e s1)"

text \<open>After the \<^verbatim>\<open>await\<close>, when the connect failed.\<close>

definition check_live_rejected :: "string \<Rightarrow> jsval \<Rightarrow> server \<Rightarrow> server" where
  "check_live_rejected u err s = check_live_catch False u err s"

subsection \<open>\<^verbatim>\<open>POST /api/start-chat\<close>\<close>

definition start_chat_options :: "(string \<times> jsval) list" where
  "start_chat_options =
     [(''enableExtendedGiftInfo'', JBool True),
      (''enableWebsocketUpgrade'', JBool True),
      (''requestPollingIntervalMs'', JNum 1000)]"

text \<open>
  Inside the \<^verbatim>\<open>try\<close> of the handler only the constructor is taken to throw:
  \<^verbatim>\<open>Map.set\<close>, \<^verbatim>\<open>on\<close>, \<^verbatim>\<open>io.emit\<close> and \<^verbatim>\<open>res.json\<close> return, and \<^verbatim>\<open>connect()\<close> returns
  a promise. The \<^verbatim>\<open>catch (error)\<close> of the handler:
\<close>

definition start_chat_catch :: "jsval \<Rightarrow> server \<Rightarrow> server" where
  "start_chat_catch e s =
     (case get_prop e ''message'' of
        Inl te \<Rightarrow> log (Unhandled te) s
      | Inr m \<Rightarrow> res_json 500 (JObj [(''error'', m)]) s)"

definition start_chat :: "string option \<Rightarrow> ctor_outcome \<Rightarrow> server \<Rightarrow> server" where
  "start_chat username ctor s =
     (case username of
        None \<Rightarrow> res_json 400 username_required s
      | Some u \<Rightarrow>
          if u = [] then res_json 400 username_required s
          else if registry_has u s then
            res_json 200
              (JObj [(''success'', JBool True),
                     (''message'', JStr (''Ya existe una conexi'' @ o_acute
                         @ ''n activa para este usuario'')),
                     (''username'', JStr u)]) s
          else (case ctor of
                  CtorThrows e \<Rightarrow> start_chat_catch e s
                | CtorReturns \<Rightarrow>
                    (let cid = length (conns s)
                     in seq [new_connection u start_chat_options,
                             registry_set u cid,
                             call_connect cid (StartChatThen u),
                             call_on cid ''chat'' OnChat,
                             call_on cid ''member'' OnMember,
                             call_on cid ''like'' OnLike,
                             call_on cid ''gift'' OnGift,
                             call_on cid ''share'' OnShare,
                             call_on cid ''follow'' OnFollow,
                             call_on cid ''streamEnd'' (OnStreamEnd u),
                             call_on cid ''disconnected'' (OnDisconnected u),
                             res_json 200
                               (JObj [(''success'', JBool True),
                                      (''message'', JStr (''Conexi'' @ o_acute @ ''n iniciada'')),
                                      (''username'', JStr u)])] s)))"

text \<open>The \<^verbatim>\<open>.catch((err) => ...)\<close> of the connect promise.\<close>

definition connect_catch :: "string \<Rightarrow> jsval \<Rightarrow> server \<Rightarrow> server" where
  "connect_catch u err s =
     (let s1 = registry_delete u s
      in case get_prop err ''message'' of
           Inl te \<Rightarrow> log (Unhandled te) s1
         | Inr m \<Rightarrow>
             io_emit ''tiktok-status''
               (JObj [(''type'', JStr ''error''),
                      (''username'', JStr u),
                      (''error'', m)]) s1)"

text \<open>
  The \<^verbatim>\<open>.then((state) => ...)\<close> of the connect promise. Reading \<^verbatim>\<open>state.roomInfo\<close> throws
  when \<open>state\<close> is \<^verbatim>\<open>undefined\<close> or \<^verbatim>\<open>null\<close>, and the \<^verbatim>\<open>.catch\<close> that follows in the chain
  receives the error.
\<close>

definition connect_then :: "string \<Rightarrow> jsval \<Rightarrow> server \<Rightarrow> server" where
  "connect_then u state s =
     (case get_prop state ''roomInfo'' of
        Inl te \<Rightarrow> connect_catch u te s
      | Inr ri \<Rightarrow>
          io_emit ''tiktok-status''
            (JObj [(''type'', JStr ''connected''),
                   (''username'', JStr u),
                   (''roomInfo'', JObj [(''title'', opt_prop ri ''title''),
                                        (''viewers'', opt_prop ri ''userCount'')])]) s)"

subsection \<open>\<^verbatim>\<open>POST /api/stop-chat\<close>\<close>

text \<open>
  The handler is synchronous and has no \<^verbatim>\<open>try\<close>: an exception of \<^verbatim>\<open>disconnect()\<close> ends
  it at that line.
\<close>

definition stop_chat :: "string option \<Rightarrow> disconnect_outcome \<Rightarrow> server \<Rightarrow> server" where
  "stop_chat username dout s =
     (case username of
        None \<Rightarrow> res_json 400 username_required s
      | Some u \<Rightarrow>
          if u = [] then res_json 400 username_required s
          else (case registry_get u s of
                  Some cid \<Rightarrow>
                    (let s1 = call_disconnect cid s;
                         rest = seq [registry_delete u,
                                     io_emit ''tiktok-status''
                                       (JObj [(''type'', JStr ''stopped''),
                                              (''username'', JStr u)]),
                                     res_json 200
                                       (JObj [(''success'', JBool True),
                                              (''message'', JStr (''Conexi'' @ o_acute @ ''n detenida'')),
                                              (''username'', JStr u)])]
                     in case dout of
                          DisconnectThrows e \<Rightarrow> log (Uncaught e) s1
                        | DisconnectReturns \<Rightarrow> rest s1
                        | DisconnectRejects e \<Rightarrow> log (Unhandled e) (rest s1))
                | None \<Rightarrow>
                    res_json 200
                      (JObj [(''success'', JBool False),
                             (''message'', JStr (''No hay conexi'' @ o_acute
                                 @ ''n activa para este usuario''))]) s))"

section \<open>The upstream listeners\<close>

text \<open>
  The body of each closure, given the payload \<open>d\<close> of the event (an object) and the clock
  reading \<open>now\<close> of \<^verbatim>\<open>new Date()\<close>.
\<close>

fun run_listener :: "listener \<Rightarrow> (string \<times> jsval) list \<Rightarrow> int \<Rightarrow> server \<Rightarrow> server" where
  "run_listener OnChat d now =
     io_emit ''tiktok-message''
       (JObj [(''username'', obj_prop d ''uniqueId''),
              (''nickname'', obj_prop d ''nickname''),
              (''message'', obj_prop d ''comment''),
              (''timestamp'', JStr (toISOString now)),
              (''profilePicture'', obj_prop d ''profilePictureUrl'')])"
| "run_listener OnMember d now =
     io_emit ''tiktok-join''
       (JObj [(''username'', obj_prop d ''uniqueId''),
              (''nickname'', obj_prop d ''nickname''),
              (''message'', JStr (inverted_exclamation @ ''Se uni'' @ o_acute @ '' al stream!'')),
              (''timestamp'', JStr (toISOString now)),
              (''type'', JStr ''join'')])"
| "run_listener OnLike d now =
     io_emit ''tiktok-like''
       (JObj [(''username'', obj_prop d ''uniqueId''),
              (''nickname'', obj_prop d ''nickname''),
              (''likeCount'', obj_prop d ''likeCount''),
              (''totalLikes'', obj_prop d ''totalLikeCount''),
              (''timestamp'', JStr (toISOString now)),
              (''type'', JStr ''like'')])"
| "run_listener OnGift d now =
     io_emit ''tiktok-gift''
       (JObj [(''username'', obj_prop d ''uniqueId''),
              (''nickname'', obj_prop d ''nickname''),
              (''giftName'', obj_prop d ''giftName''),
              (''giftCount'', obj_prop d ''repeatCount''),
              (''diamondValue'', obj_prop d ''diamondCount''),
              (''timestamp'', JStr (toISOString now)),
              (''type'', JStr ''gift'')])"
| "run_listener OnShare d now =
     io_emit ''tiktok-share''
       (JObj [(''username'', obj_prop d ''uniqueId''),
              (''nickname'', obj_prop d ''nickname''),
              (''timestamp'', JStr (toISOString now)),
              (''type'', JStr ''share'')])"
| "run_listener OnFollow d now =
     io_emit ''tiktok-follow''
       (JObj [(''username'', obj_prop d ''uniqueId''),
              (''nickname'', obj_prop d ''nickname''),
              (''timestamp'', JStr (toISOString now)),
              (''type'', JStr ''follow'')])"
| "run_listener (OnStreamEnd u) d now =
     seq [io_emit ''tiktok-status''
            (JObj [(''type'', JStr ''ended''),
                   (''username'', JStr u),
                   (''message'', JStr ''El stream ha terminado'')]),
          registry_delete u]"
| "run_listener (OnDisconnected u) d now =
     seq [io_emit ''tiktok-status''
            (JObj [(''type'', JStr ''disconnected''),
                   (''username'', JStr u)]),
          registry_delete u]"

text \<open>
  The upstream session \<open>cid\<close> emits event \<open>ev\<close>: every listener registered under that name
  runs, in the order of registration.
\<close>

definition upstream_emit :: "nat \<Rightarrow> string \<Rightarrow> (string \<times> jsval) list \<Rightarrow> int \<Rightarrow> server \<Rightarrow> server" where
  "upstream_emit cid ev d now s =
     (if cid < length (conns s)
      then fold (\<lambda>l. run_listener l d now)
             (map snd (filter (\<lambda>(e, l). e = ev) (listeners (conns s ! cid)))) s
      else s)"

section \<open>The event loop\<close>

text \<open>
  The promise of \<^verbatim>\<open>connect()\<close> of session \<open>cid\<close> settles, once, and its continuation runs.
\<close>

definition connect_fulfilled :: "nat \<Rightarrow> jsval \<Rightarrow> disconnect_outcome \<Rightarrow> server \<Rightarrow> server" where
  "connect_fulfilled cid state dout s =
     (if cid < length (conns s) then
        (case connectPromise (conns s ! cid) of
           Pending k \<Rightarrow>
             (let s1 = upd_conn cid (\<lambda>c. c\<lparr>connectPromise := Fulfilled\<rparr>) s
              in case k of
                   StartChatThen u \<Rightarrow> connect_then u state s1
                 | CheckLiveAwait u \<Rightarrow> check_live_fulfilled u cid dout s1)
         | _ \<Rightarrow> s)
      else s)"

definition connect_rejected :: "nat \<Rightarrow> jsval \<Rightarrow> server \<Rightarrow> server" where
  "connect_rejected cid err s =
     (if cid < length (conns s) then
        (case connectPromise (conns s ! cid) of
           Pending k \<Rightarrow>
             (let s1 = upd_conn cid (\<lambda>c. c\<lparr>connectPromise := Rejected\<rparr>) s
              in case k of
                   StartChatThen u \<Rightarrow> connect_catch u err s1
                 | CheckLiveAwait u \<Rightarrow> check_live_rejected u err s1)
         | _ \<Rightarrow> s)
      else s)"

text \<open>
  One turn of the single-threaded event loop runs one callback to completion: a request
  on a route, the settlement of a connect promise, or an upstream event.
\<close>

datatype event =
    GetRoot
  | CheckLive "string option" ctor_outcome
  | StartChat "string option" ctor_outcome
  | StopChat "string option" disconnect_outcome
  | ConnectFulfilled nat jsval disconnect_outcome
  | ConnectRejected nat jsval
  | Upstream nat string "(string \<times> jsval) list" int

fun step :: "event \<Rightarrow> server \<Rightarrow> server" where
  "step GetRoot = get_root"
| "step (CheckLive username ctor) = check_live username ctor"
| "step (StartChat username ctor) = start_chat username ctor"
| "step (StopChat username dout) = stop_chat username dout"
| "step (ConnectFulfilled cid state dout) = connect_fulfilled cid state dout"
| "step (ConnectRejected cid err) = connect_rejected cid err"
| "step (Upstream cid ev d now) = upstream_emit cid ev d now"

definition run :: "event list \<Rightarrow> server \<Rightarrow> server" where
  "run evs s = fold step evs s"

section \<open>Reading the state\<close>

text \<open>The listeners that \<^verbatim>\<open>/api/start-chat\<close> attaches for \<open>u\<close>, in order.\<close>

definition wired :: "string \<Rightarrow> (string \<times> listener) list" where
  "wired u =
     [(''chat'', OnChat), (''member'', OnMember), (''like'', OnLike), (''gift'', OnGift),
      (''share'', OnShare), (''follow'', OnFollow),
      (''streamEnd'', OnStreamEnd u), (''disconnected'', OnDisconnected u)]"

text \<open>The number of records the Registry holds for \<open>u\<close>.\<close>

definition records_for :: "string \<Rightarrow> server \<Rightarrow> nat" where
  "records_for u s = length (filter (\<lambda>(k, v). k = u) (activeConnections s))"

text \<open>
  The state of the Session Record of \<open>u\<close>. The code stores none: a record is the
  connection object, \<open>Connecting\<close> while the promise of its \<^verbatim>\<open>connect()\<close> is pending and
  \<open>Live\<close> once it is fulfilled.
\<close>

datatype session_state = Connecting | Live

definition record_state :: "string \<Rightarrow> server \<Rightarrow> session_state option" where
  "record_state u s =
     (case registry_get u s of
        None \<Rightarrow> None
      | Some cid \<Rightarrow>
          if cid < length (conns s) then
            (case connectPromise (conns s ! cid) of
               Pending k \<Rightarrow> Some Connecting
             | Fulfilled \<Rightarrow> Some Live
             | _ \<Rightarrow> None)
          else None)"

text \<open>The effects logged from an earlier state \<open>s0\<close> to \<open>s\<close>.\<close>

definition since :: "server \<Rightarrow> server \<Rightarrow> effect list" where
  "since s0 s = drop (length (trace s0)) (trace s)"

definition is_emit :: "effect \<Rightarrow> bool" where
  "is_emit e = (case e of Emit tag payload \<Rightarrow> True | _ \<Rightarrow> False)"

definition broadcasts :: "effect list \<Rightarrow> effect list" where
  "broadcasts es = filter is_emit es"

text \<open>The upstream sessions constructed for \<open>u\<close> among the effects \<open>es\<close>.\<close>

definition constructed_for :: "string \<Rightarrow> effect list \<Rightarrow> nat" where
  "constructed_for u es =
     length (filter (\<lambda>e. case e of Construct cid v opts \<Rightarrow> v = u | _ \<Rightarrow> False) es)"

section \<open>The invariant of the event loop\<close>

text \<open>
  A session whose connect promise is pending with the continuation of \<^verbatim>\<open>/api/start-chat\<close>
  carries the eight listeners of its username already. Any other session carries the
  eight listeners of its username or, made by \<^verbatim>\<open>/api/check-live\<close>, none.
\<close>

definition conn_ok :: "conn \<Rightarrow> bool" where
  "conn_ok c =
     (case connectPromise c of
        Pending k \<Rightarrow>
          (case k of
             StartChatThen u \<Rightarrow> u = uniqueId c \<and> listeners c = wired u
           | CheckLiveAwait u \<Rightarrow> listeners c = [])
      | _ \<Rightarrow> listeners c = wired (uniqueId c) \<or> listeners c = [])"

text \<open>
  Every record of the map has a non-empty key and points to the session constructed for
  that key, which carries the listeners of the key.
\<close>

definition registry_ok :: "server \<Rightarrow> bool" where
  "registry_ok s =
     list_all (\<lambda>(u, cid). u \<noteq> [] \<and> cid < length (conns s) \<and> uniqueId (conns s ! cid) = u
                 \<and> listeners (conns s ! cid) = wired u)
       (activeConnections s)"

definition inv :: "server \<Rightarrow> bool" where
  "inv s = (distinct (map fst (activeConnections s)) \<and> registry_ok s \<and> list_all conn_ok (conns s))"

text \<open>
  From \<open>s\<close> to \<open>s'\<close> no session is lost and no listener of a session of \<open>s\<close> is
  detached or added: the code calls \<^verbatim>\<open>on\<close> only on the session it has just constructed
  and never calls \<^verbatim>\<open>off\<close> or \<^verbatim>\<open>removeListener\<close>.
\<close>

definition keeps_listeners :: "server \<Rightarrow> server \<Rightarrow> bool" where
  "keeps_listeners s s' =
     (length (conns s) \<le> length (conns s')
      \<and> list_all (\<lambda>i. listeners (conns s' ! i) = listeners (conns s ! i)) [0..<length (conns s)])"

section \<open>Basic facts\<close>

lemmas prims =
  log_def io_emit_def res_json_def new_connection_def upd_conn_def
  registry_set_def registry_delete_def call_connect_def call_on_def call_disconnect_def

lemma seq_Nil [simp]: "seq [] s = s"
  by (simp add: seq_def)

lemma seq_Cons [simp]: "seq (f # fs) s = seq fs (f s)"
  by (simp add: seq_def)

lemma update_fresh: "k \<notin> fst ` set al \<Longrightarrow> AList.update k v al = al @ [(k, v)]"
  by (induction al) auto

lemma filter_fresh: "k \<notin> fst ` set al \<Longrightarrow> filter (\<lambda>(k', v). k' = k) al = []"
  by (induction al) auto

lemma since_append: "trace s1 = trace s @ es \<Longrightarrow> since s s1 = es"
  by (simp add: since_def)

lemma log_fields [simp]:
  "activeConnections (log e s) = activeConnections s"
  "conns (log e s) = conns s"
  "trace (log e s) = trace s @ [e]"
  by (simp_all add: log_def)

lemma io_emit_fields [simp]:
  "activeConnections (io_emit tag p s) = activeConnections s"
  "conns (io_emit tag p s) = conns s"
  "trace (io_emit tag p s) = trace s @ [Emit tag p]"
  by (simp_all add: io_emit_def)

lemma res_json_fields [simp]:
  "activeConnections (res_json code body s) = activeConnections s"
  "conns (res_json code body s) = conns s"
  "trace (res_json code body s) = trace s @ [Respond code body]"
  by (simp_all add: res_json_def)

lemma upd_conn_fields [simp]:
  "activeConnections (upd_conn cid f s) = activeConnections s"
  "conns (upd_conn cid f s) = (conns s)[cid := f (conns s ! cid)]"
  "trace (upd_conn cid f s) = trace s"
  by (simp_all add: upd_conn_def list_update_beyond)

lemma new_connection_fields [simp]:
  "activeConnections (new_connection u opts s) = activeConnections s"
  "conns (new_connection u opts s) = conns s @
     [\<lparr>uniqueId = u, options = opts, listeners = [],
       connectPromise = NotCalled, disconnectCalls = 0\<rparr>]"
  "trace (new_connection u opts s) = trace s @ [Construct (length (conns s)) u opts]"
  by (simp_all add: new_connection_def)

lemma registry_set_fields [simp]:
  "activeConnections (registry_set u cid s) = AList.update u cid (activeConnections s)"
  "conns (registry_set u cid s) = conns s"
  "trace (registry_set u cid s) = trace s @ [RegistrySet u cid]"
  by (simp_all add: registry_set_def)

lemma registry_delete_fields [simp]:
  "activeConnections (registry_delete u s) = AList.delete u (activeConnections s)"
  "conns (registry_delete u s) = conns s"
  "trace (registry_delete u s) = trace s @ [RegistryDelete u]"
  by (simp_all add: registry_delete_def)

lemma call_connect_fields [simp]:
  "activeConnections (call_connect cid k s) = activeConnections s"
  "conns (call_connect cid k s) = (conns s)[cid := (conns s ! cid)\<lparr>connectPromise := Pending k\<rparr>]"
  "trace (call_connect cid k s) = trace s @ [CallConnect cid]"
  by (simp_all add: call_connect_def)

lemma call_on_fields [simp]:
  "activeConnections (call_on cid ev l s) = activeConnections s"
  "conns (call_on cid ev l s) =
     (conns s)[cid := (conns s ! cid)\<lparr>listeners := listeners (conns s ! cid) @ [(ev, l)]\<rparr>]"
  "trace (call_on cid ev l s) = trace s @ [CallOn cid ev]"
  by (simp_all add: call_on_def)

lemma call_disconnect_fields [simp]:
  "activeConnections (call_disconnect cid s) = activeConnections s"
  "conns (call_disconnect cid s) =
     (conns s)[cid := (conns s ! cid)\<lparr>disconnectCalls := Suc (disconnectCalls (conns s ! cid))\<rparr>]"
  "trace (call_disconnect cid s) = trace s @ [CallDisconnect cid]"
  by (simp_all add: call_disconnect_def)

lemma registry_get_delete [simp]: "map_of (AList.delete u al) u = None"
  by (induction al) auto

lemma keys_delete: "fst ` set (AList.delete u al) = fst ` set al - {u}"
  by (induction al) auto

lemma delete_other: "k \<noteq> u \<Longrightarrow> map_of (AList.delete u al) k = map_of al k"
  by (induction al) auto

section \<open>Starting a session\<close>

text \<open>The whole effect of an accepted start request, field by field.\<close>

lemma start_chat_fresh:
  assumes "u \<noteq> []" and "\<not> registry_has u s"
  shows "start_chat (Some u) CtorReturns s =
     \<lparr>activeConnections = activeConnections s @ [(u, length (conns s))],
      conns = conns s @
        [\<lparr>uniqueId = u, options = start_chat_options, listeners = wired u,
          connectPromise = Pending (StartChatThen u), disconnectCalls = 0\<rparr>],
      trace = trace s @
        [Construct (length (conns s)) u start_chat_options,
         RegistrySet u (length (conns s)),
         CallConnect (length (conns s)),
         CallOn (length (conns s)) ''chat'',
         CallOn (length (conns s)) ''member'',
         CallOn (length (conns s)) ''like'',
         CallOn (length (conns s)) ''gift'',
         CallOn (length (conns s)) ''share'',
         CallOn (length (conns s)) ''follow'',
         CallOn (length (conns s)) ''streamEnd'',
         CallOn (length (conns s)) ''disconnected'',
         Respond 200
           (JObj [(''success'', JBool True),
                  (''message'', JStr (''Conexi'' @ o_acute @ ''n iniciada'')),
                  (''username'', JStr u)])]\<rparr>"
proof -
  have "u \<notin> fst ` set (activeConnections s)"
    using assms(2) by (simp add: registry_has_def)
  then show ?thesis
    using assms
    apply (cases s)
    apply (simp add: start_chat_def Let_def)
    apply (simp add: prims update_fresh wired_def)
    done
qed

lemma start_chat_registered:
  assumes "u \<noteq> []" and "registry_has u s"
  shows "start_chat (Some u) ctor s =
     res_json 200
       (JObj [(''success'', JBool True),
              (''message'', JStr (''Ya existe una conexi'' @ o_acute
                  @ ''n activa para este usuario'')),
              (''username'', JStr u)]) s"
  using assms by (simp add: start_chat_def)

text \<open>
  C1. \<^verbatim>\<open>/api/start-chat\<close> for a username with no record puts the record into
  \<^verbatim>\<open>activeConnections\<close> before it calls \<^verbatim>\<open>connect()\<close>, and returns with the promise
  still pending. A second start request for the same username, made in that state,
  constructs nothing and answers that a connection already exists: after the two calls
  one upstream session has been constructed for the username and the map holds one
  record for it.
\<close>

theorem start_chat_twice_one_session:
  assumes "u \<noteq> []" and "\<not> registry_has u s"
    and "s1 = start_chat (Some u) CtorReturns s"
    and "s2 = start_chat (Some u) ctor s1"
  shows "take 3 (since s s1) =
           [Construct (length (conns s)) u start_chat_options,
            RegistrySet u (length (conns s)),
            CallConnect (length (conns s))]
       \<and> connectPromise (conns s1 ! length (conns s)) = Pending (StartChatThen u)
       \<and> since s1 s2 =
           [Respond 200
              (JObj [(''success'', JBool True),
                     (''message'', JStr (''Ya existe una conexi'' @ o_acute
                         @ ''n activa para este usuario'')),
                     (''username'', JStr u)])]
       \<and> constructed_for u (since s s2) = 1
       \<and> length (conns s2) = Suc (length (conns s))
       \<and> activeConnections s2 = activeConnections s @ [(u, length (conns s))]
       \<and> records_for u s2 = 1"
proof -
  have fresh: "u \<notin> fst ` set (activeConnections s)"
    using assms(2) by (simp add: registry_has_def)
  note e1 = start_chat_fresh[OF assms(1,2), folded assms(3)]
  have has1: "registry_has u s1"
    by (simp add: e1 registry_has_def)
  note e2 = start_chat_registered[OF assms(1) has1, of ctor, folded assms(4)]
  have a: "take 3 (since s s1) =
           [Construct (length (conns s)) u start_chat_options,
            RegistrySet u (length (conns s)),
            CallConnect (length (conns s))]"
    by (simp add: e1 since_def)
  have b: "connectPromise (conns s1 ! length (conns s)) = Pending (StartChatThen u)"
    by (simp add: e1)
  have c: "since s1 s2 =
           [Respond 200
              (JObj [(''success'', JBool True),
                     (''message'', JStr (''Ya existe una conexi'' @ o_acute
                         @ ''n activa para este usuario'')),
                     (''username'', JStr u)])]"
    by (simp add: e2 since_def res_json_def log_def)
  have d: "constructed_for u (since s s2) = 1"
    by (simp add: e2 e1 since_def res_json_def log_def constructed_for_def)
  have e: "length (conns s2) = Suc (length (conns s))"
    by (simp add: e2 e1 res_json_def log_def)
  have f: "activeConnections s2 = activeConnections s @ [(u, length (conns s))]"
    by (simp add: e2 e1 res_json_def log_def)
  have g: "records_for u s2 = 1"
    by (simp add: records_for_def f filter_fresh[OF fresh])
  from a b c d e f g show ?thesis by blast
qed

theorem start_chat_twice_one_session_witness:
  "''alice'' \<noteq> [] \<and> \<not> registry_has ''alice'' init
   \<and> constructed_for ''alice''
        (since init (start_chat (Some ''alice'') CtorReturns
                       (start_chat (Some ''alice'') CtorReturns init))) = 1
   \<and> records_for ''alice''
        (start_chat (Some ''alice'') CtorReturns
           (start_chat (Some ''alice'') CtorReturns init)) = 1"
proof -
  have h1: "''alice'' \<noteq> []" by simp
  have h2: "\<not> registry_has ''alice'' init" by (simp add: registry_has_def init_def)
  show ?thesis
    using h1 h2 start_chat_twice_one_session[OF h1 h2 refl refl, of CtorReturns] by blast
qed

section \<open>Stopping a session\<close>

lemma stop_chat_absent:
  assumes "u \<noteq> []" and "registry_get u s = None"
  shows "stop_chat (Some u) dout s =
     res_json 200
       (JObj [(''success'', JBool False),
              (''message'', JStr (''No hay conexi'' @ o_acute
                  @ ''n activa para este usuario''))]) s"
  using assms by (simp add: stop_chat_def)

subsection \<open>A username enters the map only through a start request\<close>

lemma check_live_catch_registry [simp]:
  "activeConnections (check_live_catch sent u e s) = activeConnections s"
  by (simp add: check_live_catch_def split: sum.splits)

lemma check_live_registry:
  "activeConnections (check_live username ctor s) = activeConnections s"
  by (simp add: check_live_def Let_def split: option.splits ctor_outcome.splits)

lemma check_live_fulfilled_registry:
  "activeConnections (check_live_fulfilled u cid dout s) = activeConnections s"
  by (simp add: check_live_fulfilled_def Let_def split: disconnect_outcome.splits)

lemma check_live_rejected_registry:
  "activeConnections (check_live_rejected u err s) = activeConnections s"
  by (simp add: check_live_rejected_def)

lemma connect_catch_registry:
  "activeConnections (connect_catch u err s) = AList.delete u (activeConnections s)"
  by (simp add: connect_catch_def Let_def split: sum.splits)

lemma connect_then_keys:
  "fst ` set (activeConnections (connect_then u state s)) \<subseteq> fst ` set (activeConnections s)"
  by (auto simp: connect_then_def connect_catch_registry keys_delete split: sum.splits)

lemma run_listener_keys:
  "fst ` set (activeConnections (run_listener l d now s)) \<subseteq> fst ` set (activeConnections s)"
  by (cases l) (auto simp: keys_delete)

lemma fold_listeners_keys:
  "fst ` set (activeConnections (fold (\<lambda>l. run_listener l d now) ls s))
     \<subseteq> fst ` set (activeConnections s)"
proof (induction ls arbitrary: s)
  case Nil
  show ?case by simp
next
  case (Cons l ls)
  have "fst ` set (activeConnections (fold (\<lambda>l. run_listener l d now) ls (run_listener l d now s)))
          \<subseteq> fst ` set (activeConnections (run_listener l d now s))"
    by (rule Cons.IH)
  also have "\<dots> \<subseteq> fst ` set (activeConnections s)"
    by (rule run_listener_keys)
  finally show ?case by simp
qed

lemma step_keys:
  assumes "u \<notin> fst ` set (activeConnections s)" and "\<And>c. ev \<noteq> StartChat (Some u) c"
  shows "u \<notin> fst ` set (activeConnections (step ev s))"
proof (cases ev)
  case GetRoot
  then show ?thesis using assms(1) by (simp add: get_root_def)
next
  case (CheckLive username ctor)
  then show ?thesis using assms(1) by (simp add: check_live_registry)
next
  case (StartChat username ctor)
  with assms(2) have "username \<noteq> Some u" by auto
  then have "fst ` set (activeConnections (start_chat username ctor s))
               \<subseteq> fst ` set (activeConnections s) \<union> (case username of None \<Rightarrow> {} | Some v \<Rightarrow> {v})"
    by (auto simp: start_chat_def start_chat_catch_def Let_def dom_update
             split: option.splits ctor_outcome.splits sum.splits)
  with assms(1) \<open>username \<noteq> Some u\<close> StartChat show ?thesis
    by (auto split: option.splits)
next
  case (StopChat username dout)
  have "fst ` set (activeConnections (stop_chat username dout s)) \<subseteq> fst ` set (activeConnections s)"
    by (auto simp: stop_chat_def Let_def keys_delete
             split: option.splits disconnect_outcome.splits)
  with assms(1) StopChat show ?thesis by auto
next
  case (ConnectFulfilled cid state dout)
  have "fst ` set (activeConnections (connect_fulfilled cid state dout s))
          \<subseteq> fst ` set (activeConnections s)"
  proof -
    have "\<And>v s'. activeConnections s' = activeConnections s \<Longrightarrow>
            fst ` set (activeConnections (connect_then v state s')) \<subseteq> fst ` set (activeConnections s)"
      using connect_then_keys by metis
    then show ?thesis
      by (simp add: connect_fulfilled_def Let_def check_live_fulfilled_registry
               split: promise.splits continuation.splits)
  qed
  with assms(1) ConnectFulfilled show ?thesis by auto
next
  case (ConnectRejected cid err)
  have "fst ` set (activeConnections (connect_rejected cid err s))
          \<subseteq> fst ` set (activeConnections s)"
    by (auto simp: connect_rejected_def Let_def check_live_rejected_registry
                   connect_catch_registry keys_delete
             split: promise.splits continuation.splits)
  with assms(1) ConnectRejected show ?thesis by auto
next
  case (Upstream cid ev' d now)
  have "fst ` set (activeConnections (upstream_emit cid ev' d now s))
          \<subseteq> fst ` set (activeConnections s)"
    using fold_listeners_keys by (simp add: upstream_emit_def)
  with assms(1) Upstream show ?thesis by auto
qed

lemma run_keys:
  assumes "u \<notin> fst ` set (activeConnections s)" and "\<forall>c. StartChat (Some u) c \<notin> set evs"
  shows "u \<notin> fst ` set (activeConnections (run evs s))"
  using assms
proof (induction evs arbitrary: s)
  case Nil
  then show ?case by (simp add: run_def)
next
  case (Cons ev evs)
  have "u \<notin> fst ` set (activeConnections (step ev s))"
    using Cons.prems by (intro step_keys) auto
  moreover have "\<forall>c. StartChat (Some u) c \<notin> set evs"
    using Cons.prems by auto
  ultimately have "u \<notin> fst ` set (activeConnections (run evs (step ev s)))"
    by (rule Cons.IH)
  then show ?case by (simp add: run_def)
qed

lemma never_started_no_record:
  assumes "\<forall>c. StartChat (Some u) c \<notin> set evs"
  shows "registry_get u (run evs init) = None"
proof -
  have "u \<notin> fst ` set (activeConnections init)" by (simp add: init_def)
  then have "u \<notin> fst ` set (activeConnections (run evs init))"
    using assms by (rule run_keys)
  then show ?thesis by (simp add: registry_get_def map_of_eq_None_iff)
qed

text \<open>
  C8. \<^verbatim>\<open>/api/stop-chat\<close> for a username that has no record in \<^verbatim>\<open>activeConnections\<close>, which
  is the case of every username that no start request ever named, answers
  \<^verbatim>\<open>success: false\<close> with the "no active connection" message, and does nothing else:
  the map and every upstream session are as before, and the response is the only effect
  (no \<^verbatim>\<open>disconnect()\<close> call, no broadcast).
\<close>

theorem stop_chat_without_record:
  assumes "u \<noteq> []"
    and "registry_get u s = None
         \<or> (\<exists>evs. s = run evs init \<and> (\<forall>c. StartChat (Some u) c \<notin> set evs))"
  shows "since s (stop_chat (Some u) dout s) =
           [Respond 200
              (JObj [(''success'', JBool False),
                     (''message'', JStr (''No hay conexi'' @ o_acute
                         @ ''n activa para este usuario''))])]
       \<and> activeConnections (stop_chat (Some u) dout s) = activeConnections s
       \<and> conns (stop_chat (Some u) dout s) = conns s"
proof -
  have none: "registry_get u s = None"
    using assms(2)
  proof
    assume "registry_get u s = None"
    then show ?thesis .
  next
    assume "\<exists>evs. s = run evs init \<and> (\<forall>c. StartChat (Some u) c \<notin> set evs)"
    then obtain evs where "s = run evs init" and "\<forall>c. StartChat (Some u) c \<notin> set evs"
      by auto
    then show ?thesis by (simp add: never_started_no_record)
  qed
  show ?thesis
    by (simp add: stop_chat_absent[OF assms(1) none] since_def)
qed

theorem stop_chat_without_record_witness:
  "''bob'' \<noteq> []
   \<and> (\<forall>c. StartChat (Some ''bob'') c \<notin> set [StartChat (Some ''alice'') CtorReturns])
   \<and> activeConnections
        (stop_chat (Some ''bob'') DisconnectReturns (run [StartChat (Some ''alice'') CtorReturns] init))
      = activeConnections (run [StartChat (Some ''alice'') CtorReturns] init)
   \<and> conns
        (stop_chat (Some ''bob'') DisconnectReturns (run [StartChat (Some ''alice'') CtorReturns] init))
      = conns (run [StartChat (Some ''alice'') CtorReturns] init)"
proof -
  have h1: "''bob'' \<noteq> []" by simp
  have h2: "\<forall>c. StartChat (Some ''bob'') c \<notin> set [StartChat (Some ''alice'') CtorReturns]"
    by simp
  have h3: "registry_get ''bob'' (run [StartChat (Some ''alice'') CtorReturns] init) = None
       \<or> (\<exists>evs. run [StartChat (Some ''alice'') CtorReturns] init = run evs init
             \<and> (\<forall>c. StartChat (Some ''bob'') c \<notin> set evs))"
    using h2 by blast
  show ?thesis
    using h1 h2 stop_chat_without_record[OF h1 h3, of DisconnectReturns] by blast
qed

section \<open>The invariant holds in every reachable state\<close>

lemma inv_cong:
  assumes "activeConnections s' = activeConnections s" and "conns s' = conns s"
  shows "inv s' = inv s"
  using assms by (simp add: inv_def registry_ok_def)

lemma inv_log [simp]: "inv (log e s) = inv s"
  by (rule inv_cong) simp_all

lemma inv_io_emit [simp]: "inv (io_emit tag p s) = inv s"
  by (rule inv_cong) simp_all

lemma inv_res_json [simp]: "inv (res_json code body s) = inv s"
  by (rule inv_cong) simp_all

lemma distinct_delete_keys: "distinct (map fst al) \<Longrightarrow> distinct (map fst (AList.delete u al))"
  by (induction al) (auto simp: keys_delete)

lemma set_delete_subset: "set (AList.delete u al) \<subseteq> set al"
  by (induction al) auto

lemma inv_registry_delete: "inv s \<Longrightarrow> inv (registry_delete u s)"
  using set_delete_subset[of u "activeConnections s"]
  by (auto simp: inv_def registry_ok_def list_all_iff distinct_delete_keys)

lemma listeners_upd:
  assumes "\<And>c. listeners (f c) = listeners c" and "i < length xs"
  shows "listeners (xs[cid := f (xs ! cid)] ! i) = listeners (xs ! i)"
  using assms by (cases "i = cid") simp_all

lemma uniqueId_upd:
  assumes "\<And>c. uniqueId (f c) = uniqueId c" and "i < length xs"
  shows "uniqueId (xs[cid := f (xs ! cid)] ! i) = uniqueId (xs ! i)"
  using assms by (cases "i = cid") simp_all

lemma conn_ok_upd:
  assumes "\<And>c. conn_ok c \<Longrightarrow> conn_ok (f c)" and "list_all conn_ok xs"
  shows "list_all conn_ok (xs[cid := f (xs ! cid)])"
proof (cases "cid < length xs")
  case True
  then have "conn_ok (xs ! cid)" using assms(2) by (simp add: list_all_length)
  then have "conn_ok (f (xs ! cid))" by (rule assms(1))
  with assms(2) True show ?thesis
    by (auto simp: list_all_length nth_list_update)
next
  case False
  then show ?thesis using assms(2) by (simp add: list_update_beyond)
qed

text \<open>An update of one session that keeps its listeners and does not make its promise pending.\<close>

lemma inv_upd_conn:
  assumes "inv s"
    and "\<And>c. listeners (f c) = listeners c"
    and "\<And>c. conn_ok c \<Longrightarrow> conn_ok (f c)"
    and "\<And>c. uniqueId (f c) = uniqueId c"
  shows "inv (upd_conn cid f s)"
proof -
  have "registry_ok s" using assms(1) by (simp add: inv_def)
  then have reg: "registry_ok (upd_conn cid f s)"
    using listeners_upd[of f _ "conns s" cid, OF assms(2)]
      uniqueId_upd[of f _ "conns s" cid, OF assms(4)]
    by (auto simp: registry_ok_def list_all_iff)
  have "list_all conn_ok (conns s)" using assms(1) by (simp add: inv_def)
  then have "list_all conn_ok (conns (upd_conn cid f s))"
    using conn_ok_upd[of f "conns s" cid, OF assms(3)] by simp
  with reg assms(1) show ?thesis by (simp add: inv_def)
qed

lemma inv_settle:
  "inv s \<Longrightarrow> inv (upd_conn cid (\<lambda>c. c\<lparr>connectPromise := Fulfilled\<rparr>) s)"
  "inv s \<Longrightarrow> inv (upd_conn cid (\<lambda>c. c\<lparr>connectPromise := Rejected\<rparr>) s)"
  by (rule inv_upd_conn; auto simp: conn_ok_def split: promise.splits continuation.splits)+

lemma inv_call_disconnect: "inv s \<Longrightarrow> inv (call_disconnect cid s)"
proof -
  assume "inv s"
  then have "inv (upd_conn cid (\<lambda>c. c\<lparr>disconnectCalls := Suc (disconnectCalls c)\<rparr>) s)"
    by (rule inv_upd_conn) (simp_all add: conn_ok_def split: promise.splits continuation.splits)
  then show ?thesis by (simp add: call_disconnect_def)
qed

text \<open>A new session at the end of the list, with or without a record for it.\<close>

lemma inv_append:
  assumes "inv s" and "conn_ok c"
    and "conns s' = conns s @ [c]"
    and "activeConnections s' = activeConnections s
         \<or> (\<exists>u. u \<notin> fst ` set (activeConnections s) \<and> listeners c = wired u
                \<and> u \<noteq> [] \<and> uniqueId c = u
                \<and> activeConnections s' = activeConnections s @ [(u, length (conns s))])"
  shows "inv s'"
proof -
  have old: "list_all (\<lambda>(u, cid). u \<noteq> [] \<and> cid < length (conns s') \<and> uniqueId (conns s' ! cid) = u
                         \<and> listeners (conns s' ! cid) = wired u)
               (activeConnections s)"
    using assms(1) by (auto simp: inv_def registry_ok_def list_all_iff assms(3) nth_append)
  have all: "list_all conn_ok (conns s')"
    using assms(1,2) by (simp add: inv_def assms(3))
  from assms(4) show ?thesis
  proof
    assume "activeConnections s' = activeConnections s"
    with old all assms(1) show ?thesis by (simp add: inv_def registry_ok_def)
  next
    assume "\<exists>u. u \<notin> fst ` set (activeConnections s) \<and> listeners c = wired u
                \<and> u \<noteq> [] \<and> uniqueId c = u
                \<and> activeConnections s' = activeConnections s @ [(u, length (conns s))]"
    then obtain u where u: "u \<notin> fst ` set (activeConnections s)" "listeners c = wired u"
      "activeConnections s' = activeConnections s @ [(u, length (conns s))]"
      "u \<noteq> []" "uniqueId c = u" by blast
    have "distinct (map fst (activeConnections s'))"
      using assms(1) u(1) by (simp add: inv_def u(3))
    moreover have "registry_ok s'"
      using old u(2,4,5) by (simp add: registry_ok_def u(3) assms(3))
    ultimately show ?thesis using all by (simp add: inv_def)
  qed
qed

lemma inv_check_live_catch [simp]: "inv (check_live_catch sent u e s) = inv s"
  by (simp add: check_live_catch_def split: sum.splits)

lemma inv_check_live: "inv s \<Longrightarrow> inv (check_live username ctor s)"
proof -
  assume i: "inv s"
  have new: "inv (call_connect (length (conns s)) (CheckLiveAwait v)
                (new_connection v check_live_options s))" for v
    by (rule inv_append[OF i, where c = "\<lparr>uniqueId = v, options = check_live_options,
            listeners = [], connectPromise = Pending (CheckLiveAwait v), disconnectCalls = 0\<rparr>"])
       (simp_all add: conn_ok_def)
  show ?thesis
    using i new by (simp add: check_live_def Let_def split: option.splits ctor_outcome.splits)
qed

lemma inv_check_live_fulfilled: "inv s \<Longrightarrow> inv (check_live_fulfilled u cid dout s)"
  by (simp add: check_live_fulfilled_def Let_def inv_call_disconnect split: disconnect_outcome.splits)

lemma inv_connect_catch: "inv s \<Longrightarrow> inv (connect_catch u err s)"
  by (simp add: connect_catch_def Let_def inv_registry_delete split: sum.splits)

lemma inv_connect_then: "inv s \<Longrightarrow> inv (connect_then u state s)"
  by (simp add: connect_then_def inv_connect_catch split: sum.splits)

lemma inv_connect_fulfilled: "inv s \<Longrightarrow> inv (connect_fulfilled cid state dout s)"
  by (simp add: connect_fulfilled_def Let_def inv_settle inv_connect_then inv_check_live_fulfilled
           split: promise.splits continuation.splits)

lemma inv_connect_rejected: "inv s \<Longrightarrow> inv (connect_rejected cid err s)"
  by (simp add: connect_rejected_def Let_def inv_settle inv_connect_catch check_live_rejected_def
           split: promise.splits continuation.splits)

lemma inv_stop_chat: "inv s \<Longrightarrow> inv (stop_chat username dout s)"
  by (simp add: stop_chat_def Let_def inv_call_disconnect inv_registry_delete
           split: option.splits disconnect_outcome.splits)

lemma inv_start_chat: "inv s \<Longrightarrow> inv (start_chat username ctor s)"
proof -
  assume i: "inv s"
  show ?thesis
  proof (cases "\<exists>u. username = Some u \<and> u \<noteq> [] \<and> \<not> registry_has u s \<and> ctor = CtorReturns")
    case True
    then obtain u where u: "username = Some u" "u \<noteq> []" "\<not> registry_has u s" "ctor = CtorReturns"
      by blast
    note e = start_chat_fresh[OF u(2,3)]
    show ?thesis
      unfolding u(1,4)
      by (rule inv_append[OF i, where c = "\<lparr>uniqueId = u, options = start_chat_options,
            listeners = wired u, connectPromise = Pending (StartChatThen u), disconnectCalls = 0\<rparr>"])
         (use u(2,3) in \<open>simp_all add: e conn_ok_def registry_has_def\<close>)
  next
    case False
    then show ?thesis
      using i by (auto simp: start_chat_def start_chat_catch_def split: option.splits ctor_outcome.splits sum.splits)
  qed
qed

lemma inv_run_listener: "inv s \<Longrightarrow> inv (run_listener l d now s)"
  by (cases l) (simp_all add: inv_registry_delete)

lemma inv_fold_listeners: "inv s \<Longrightarrow> inv (fold (\<lambda>l. run_listener l d now) ls s)"
  by (induction ls arbitrary: s) (simp_all add: inv_run_listener)

lemma inv_upstream_emit: "inv s \<Longrightarrow> inv (upstream_emit cid ev d now s)"
  by (simp add: upstream_emit_def inv_fold_listeners)

lemma inv_step: "inv s \<Longrightarrow> inv (step ev s)"
  by (cases ev)
     (simp_all add: get_root_def inv_check_live inv_start_chat inv_stop_chat
        inv_connect_fulfilled inv_connect_rejected inv_upstream_emit)

lemma inv_run: "inv s \<Longrightarrow> inv (run evs s)"
  unfolding run_def by (induction evs arbitrary: s) (simp_all add: inv_step)

lemma inv_init: "inv init"
  by (simp add: inv_def registry_ok_def init_def)

lemma inv_reachable: "inv (run evs init)"
  by (rule inv_run[OF inv_init])

lemma filter_key_delete [simp]: "filter (\<lambda>(k, v). k = u) (AList.delete u al) = []"
  by (induction al) auto

lemma records_for_one:
  assumes "distinct (map fst al)" and "map_of al u = Some cid"
  shows "length (filter (\<lambda>(k, v). k = u) al) = 1"
  using assms
proof (induction al)
  case Nil
  then show ?case by simp
next
  case (Cons a al)
  show ?case
  proof (cases "fst a = u")
    case True
    then have "u \<notin> fst ` set al" using Cons.prems(1) by auto
    then have "filter (\<lambda>(k, v). k = u) al = []" by (rule filter_fresh)
    with True show ?thesis by (cases a) simp
  next
    case False
    then have "map_of al u = Some cid" using Cons.prems(2) by (cases a) auto
    moreover have "distinct (map fst al)" using Cons.prems(1) by simp
    ultimately have "length (filter (\<lambda>(k, v). k = u) al) = 1" by (rule Cons.IH[rotated])
    with False show ?thesis by (cases a) simp
  qed
qed

section \<open>Stopping a registered session\<close>

lemma stop_chat_registered:
  assumes "u \<noteq> []" and "registry_get u s = Some cid"
  shows "stop_chat (Some u) dout s =
     (let s1 = call_disconnect cid s;
          rest = seq [registry_delete u,
                      io_emit ''tiktok-status''
                        (JObj [(''type'', JStr ''stopped''), (''username'', JStr u)]),
                      res_json 200
                        (JObj [(''success'', JBool True),
                               (''message'', JStr (''Conexi'' @ o_acute @ ''n detenida'')),
                               (''username'', JStr u)])]
      in case dout of
           DisconnectThrows e \<Rightarrow> log (Uncaught e) s1
         | DisconnectReturns \<Rightarrow> rest s1
         | DisconnectRejects e \<Rightarrow> log (Unhandled e) (rest s1))"
  using assms by (simp add: stop_chat_def)

text \<open>
  C2, as the code has it. \<^verbatim>\<open>/api/stop-chat\<close> for a username with a record calls
  \<^verbatim>\<open>disconnect()\<close> on the session of the record. When the call returns, whether or not
  the disconnect then fails asynchronously, the handler deletes the record and
  broadcasts one \<^verbatim>\<open>tiktok-status\<close> event of type \<^verbatim>\<open>stopped\<close> for the username, and
  nothing else is broadcast.
\<close>

theorem stop_chat_removes_and_broadcasts:
  assumes "u \<noteq> []" and "registry_get u s = Some cid"
    and "dout = DisconnectReturns \<or> dout = DisconnectRejects e"
  shows "registry_get u (stop_chat (Some u) dout s) = None
       \<and> records_for u (stop_chat (Some u) dout s) = 0
       \<and> activeConnections (stop_chat (Some u) dout s) = AList.delete u (activeConnections s)
       \<and> take 4 (since s (stop_chat (Some u) dout s)) =
           [CallDisconnect cid,
            RegistryDelete u,
            Emit ''tiktok-status'' (JObj [(''type'', JStr ''stopped''), (''username'', JStr u)]),
            Respond 200
              (JObj [(''success'', JBool True),
                     (''message'', JStr (''Conexi'' @ o_acute @ ''n detenida'')),
                     (''username'', JStr u)])]
       \<and> broadcasts (since s (stop_chat (Some u) dout s)) =
           [Emit ''tiktok-status'' (JObj [(''type'', JStr ''stopped''), (''username'', JStr u)])]"
proof -
  note e = stop_chat_registered[OF assms(1,2)]
  from assms(3) show ?thesis
  proof
    assume d: "dout = DisconnectReturns"
    show ?thesis
      by (simp add: e d Let_def registry_get_def records_for_def since_def broadcasts_def is_emit_def)
  next
    assume d: "dout = DisconnectRejects e"
    show ?thesis
      by (simp add: e d Let_def registry_get_def records_for_def since_def broadcasts_def is_emit_def)
  qed
qed

theorem stop_chat_removes_and_broadcasts_witness:
  "''alice'' \<noteq> []
   \<and> registry_get ''alice'' (run [StartChat (Some ''alice'') CtorReturns] init) = Some 0
   \<and> registry_get ''alice''
        (stop_chat (Some ''alice'') (DisconnectRejects (JStr ''late''))
           (run [StartChat (Some ''alice'') CtorReturns] init)) = None
   \<and> broadcasts (since (run [StartChat (Some ''alice'') CtorReturns] init)
        (stop_chat (Some ''alice'') (DisconnectRejects (JStr ''late''))
           (run [StartChat (Some ''alice'') CtorReturns] init))) =
       [Emit ''tiktok-status'' (JObj [(''type'', JStr ''stopped''), (''username'', JStr ''alice'')])]"
proof -
  have h1: "''alice'' \<noteq> []" by simp
  have h2: "registry_get ''alice'' (run [StartChat (Some ''alice'') CtorReturns] init) = Some 0"
    by code_simp
  have h3: "DisconnectRejects (JStr ''late'') = DisconnectReturns
            \<or> DisconnectRejects (JStr ''late'') = DisconnectRejects (JStr ''late'')" by simp
  show ?thesis
    using h1 h2 stop_chat_removes_and_broadcasts[OF h1 h2 h3] by blast
qed

text \<open>
  C2 as stated fails when \<^verbatim>\<open>disconnect()\<close> throws: the handler ends at that line, the
  record stays in the map and nothing is broadcast.
\<close>

theorem stop_chat_disconnect_throws_counterexample:
  "registry_get ''alice''
     (stop_chat (Some ''alice'') (DisconnectThrows (JObj [(''message'', JStr ''socket gone'')]))
        (run [StartChat (Some ''alice'') CtorReturns] init)) = Some 0
   \<and> broadcasts (since (run [StartChat (Some ''alice'') CtorReturns] init)
        (stop_chat (Some ''alice'') (DisconnectThrows (JObj [(''message'', JStr ''socket gone'')]))
           (run [StartChat (Some ''alice'') CtorReturns] init))) = []"
  by code_simp

section \<open>The outcome of the connect\<close>

lemma connect_rejected_start:
  assumes "cid < length (conns s)" and "connectPromise (conns s ! cid) = Pending (StartChatThen u)"
  shows "connect_rejected cid err s =
           connect_catch u err (upd_conn cid (\<lambda>c. c\<lparr>connectPromise := Rejected\<rparr>) s)"
  using assms by (simp add: connect_rejected_def)

lemma connect_fulfilled_start:
  assumes "cid < length (conns s)" and "connectPromise (conns s ! cid) = Pending (StartChatThen u)"
  shows "connect_fulfilled cid state dout s =
           connect_then u state (upd_conn cid (\<lambda>c. c\<lparr>connectPromise := Fulfilled\<rparr>) s)"
  using assms by (simp add: connect_fulfilled_def)

lemma get_prop_value:
  "v \<noteq> JUndefined \<Longrightarrow> v \<noteq> JNull \<Longrightarrow> get_prop v p = Inr (opt_prop v p)"
  by (cases v) (simp_all add: opt_prop_def)

lemma get_prop_nullish:
  "v = JUndefined \<or> v = JNull \<Longrightarrow> get_prop v p = Inl (type_error v p)"
  by auto

text \<open>
  C3, as the code has it. When the promise of the \<^verbatim>\<open>connect()\<close> that \<^verbatim>\<open>/api/start-chat\<close>
  made for \<open>u\<close> rejects, the \<^verbatim>\<open>.catch\<close> handler first deletes the record of \<open>u\<close>, whatever
  the rejection reason: the map has no record for \<open>u\<close> afterwards and the records of all
  other usernames stay, in their order. Then it reads \<^verbatim>\<open>err.message\<close>. For every reason
  but \<^verbatim>\<open>undefined\<close> and \<^verbatim>\<open>null\<close> it broadcasts one \<^verbatim>\<open>tiktok-status\<close> event of type
  \<^verbatim>\<open>error\<close> with the username and that message, and these are its only effects. For
  \<^verbatim>\<open>undefined\<close> or \<^verbatim>\<open>null\<close> the read throws, and nothing is broadcast.
\<close>

theorem connect_failure_removes_record:
  assumes "cid < length (conns s)"
    and "connectPromise (conns s ! cid) = Pending (StartChatThen u)"
  shows "registry_get u (connect_rejected cid err s) = None
       \<and> records_for u (connect_rejected cid err s) = 0
       \<and> activeConnections (connect_rejected cid err s) = AList.delete u (activeConnections s)
       \<and> (\<forall>k. k \<noteq> u \<longrightarrow> registry_get k (connect_rejected cid err s) = registry_get k s)
       \<and> (err \<noteq> JUndefined \<and> err \<noteq> JNull \<longrightarrow>
            since s (connect_rejected cid err s) =
              [RegistryDelete u,
               Emit ''tiktok-status''
                 (JObj [(''type'', JStr ''error''), (''username'', JStr u),
                        (''error'', opt_prop err ''message'')])])
       \<and> (err = JUndefined \<or> err = JNull \<longrightarrow>
            since s (connect_rejected cid err s) =
              [RegistryDelete u, Unhandled (type_error err ''message'')])"
proof -
  note e = connect_rejected_start[OF assms]
  have a: "activeConnections (connect_rejected cid err s) = AList.delete u (activeConnections s)"
    by (simp add: e connect_catch_registry)
  have b: "registry_get u (connect_rejected cid err s) = None"
    by (simp add: registry_get_def a)
  have c: "records_for u (connect_rejected cid err s) = 0"
    by (simp add: records_for_def a)
  have d: "\<forall>k. k \<noteq> u \<longrightarrow> registry_get k (connect_rejected cid err s) = registry_get k s"
    by (simp add: registry_get_def a delete_other)
  have f: "since s (connect_rejected cid err s) =
              [RegistryDelete u,
               Emit ''tiktok-status''
                 (JObj [(''type'', JStr ''error''), (''username'', JStr u),
                        (''error'', opt_prop err ''message'')])]"
    if "err \<noteq> JUndefined \<and> err \<noteq> JNull"
    using that by (simp add: e connect_catch_def Let_def get_prop_value since_def)
  have g: "since s (connect_rejected cid err s) =
              [RegistryDelete u, Unhandled (type_error err ''message'')]"
    if "err = JUndefined \<or> err = JNull"
    by (simp add: e connect_catch_def Let_def get_prop_nullish[OF that] since_def)
  from a b c d f g show ?thesis by blast
qed

theorem connect_failure_removes_record_witness:
  "(0::nat) < length (conns (run [StartChat (Some ''alice'') CtorReturns] init))
   \<and> connectPromise (conns (run [StartChat (Some ''alice'') CtorReturns] init) ! 0)
       = Pending (StartChatThen ''alice'')
   \<and> registry_get ''alice''
        (connect_rejected 0 (JObj [(''message'', JStr ''LIVE has ended'')])
           (run [StartChat (Some ''alice'') CtorReturns] init)) = None
   \<and> since (run [StartChat (Some ''alice'') CtorReturns] init)
        (connect_rejected 0 (JObj [(''message'', JStr ''LIVE has ended'')])
           (run [StartChat (Some ''alice'') CtorReturns] init)) =
       [RegistryDelete ''alice'',
        Emit ''tiktok-status''
          (JObj [(''type'', JStr ''error''), (''username'', JStr ''alice''),
                 (''error'', JStr ''LIVE has ended'')])]"
proof -
  have h1: "(0::nat) < length (conns (run [StartChat (Some ''alice'') CtorReturns] init))"
    by code_simp
  have h2: "connectPromise (conns (run [StartChat (Some ''alice'') CtorReturns] init) ! 0)
       = Pending (StartChatThen ''alice'')"
    by code_simp
  have ne: "JObj [(''message'', JStr ''LIVE has ended'')] \<noteq> JUndefined"
    "JObj [(''message'', JStr ''LIVE has ended'')] \<noteq> JNull"
    by simp_all
  have m: "opt_prop (JObj [(''message'', JStr ''LIVE has ended'')]) ''message''
       = JStr ''LIVE has ended''"
    by (simp add: opt_prop_def obj_prop_def)
  show ?thesis
    using h1 h2 ne
      connect_failure_removes_record[OF h1 h2,
        where err = "JObj [(''message'', JStr ''LIVE has ended'')]"]
    unfolding m by blast
qed

text \<open>
  C3 as stated fails when the promise rejects with \<^verbatim>\<open>null\<close>: the record is deleted, the
  handler throws at \<^verbatim>\<open>err.message\<close>, and no \<^verbatim>\<open>tiktok-status\<close> event is broadcast.
\<close>

theorem connect_failure_null_reason_counterexample:
  "registry_get ''alice''
     (connect_rejected 0 JNull (run [StartChat (Some ''alice'') CtorReturns] init)) = None
   \<and> broadcasts (since (run [StartChat (Some ''alice'') CtorReturns] init)
        (connect_rejected 0 JNull (run [StartChat (Some ''alice'') CtorReturns] init))) = []"
  by code_simp

lemma record_state_other_session:
  assumes "registry_get u s = Some c'" and "c' \<noteq> cid"
    and "activeConnections s' = activeConnections s"
    and "conns s' = (conns s)[cid := x]"
  shows "record_state u s' = record_state u s"
  using assms by (simp add: record_state_def registry_get_def)

text \<open>
  C4, as the code has it. When the promise of the \<^verbatim>\<open>connect()\<close> that \<^verbatim>\<open>/api/start-chat\<close>
  made for \<open>u\<close> is fulfilled with a room state whose \<^verbatim>\<open>roomInfo\<close> has a title and a user
  count, the \<^verbatim>\<open>.then\<close> handler broadcasts one \<^verbatim>\<open>tiktok-status\<close> event of type \<^verbatim>\<open>connected\<close>
  with the username and \<^verbatim>\<open>roomInfo: {title, viewers}\<close>, the viewers being the user count.
  That is its only effect: it neither reads nor writes \<^verbatim>\<open>activeConnections\<close>. So the map
  has one record for \<open>u\<close>, now \<open>Live\<close>, when the record of \<open>u\<close> is still that session; it
  has none when the record was deleted in the meantime; and when \<open>u\<close> was started again
  the record of the newer session is in the state it was in.
\<close>

theorem connect_success_live_and_broadcast:
  assumes "s = run evs init"
    and "cid < length (conns s)"
    and "connectPromise (conns s ! cid) = Pending (StartChatThen u)"
    and "get_prop state ''roomInfo'' = Inr (JObj ri)"
    and "map_of ri ''title'' = Some title"
    and "map_of ri ''userCount'' = Some n"
  shows "activeConnections (connect_fulfilled cid state dout s) = activeConnections s
       \<and> since s (connect_fulfilled cid state dout s) =
           [Emit ''tiktok-status''
              (JObj [(''type'', JStr ''connected''),
                     (''username'', JStr u),
                     (''roomInfo'', JObj [(''title'', title), (''viewers'', n)])])]
       \<and> (registry_get u s = Some cid \<longrightarrow>
            records_for u (connect_fulfilled cid state dout s) = 1
            \<and> record_state u s = Some Connecting
            \<and> record_state u (connect_fulfilled cid state dout s) = Some Live)
       \<and> (registry_get u s = None \<longrightarrow>
            records_for u (connect_fulfilled cid state dout s) = 0
            \<and> record_state u (connect_fulfilled cid state dout s) = None)
       \<and> (\<forall>c'. registry_get u s = Some c' \<and> c' \<noteq> cid \<longrightarrow>
            records_for u (connect_fulfilled cid state dout s) = 1
            \<and> record_state u (connect_fulfilled cid state dout s) = record_state u s)"
proof -
  have i: "inv s" unfolding assms(1) by (rule inv_reachable)
  note e = connect_fulfilled_start[OF assms(2,3)]
  have t: "opt_prop (JObj ri) ''title'' = title" "opt_prop (JObj ri) ''userCount'' = n"
    by (simp_all add: opt_prop_def obj_prop_def assms(5,6))
  have a: "activeConnections (connect_fulfilled cid state dout s) = activeConnections s"
    by (simp add: e connect_then_def assms(4))
  have cn: "conns (connect_fulfilled cid state dout s)
              = (conns s)[cid := (conns s ! cid)\<lparr>connectPromise := Fulfilled\<rparr>]"
    by (simp add: e connect_then_def assms(4))
  have f: "since s (connect_fulfilled cid state dout s) =
           [Emit ''tiktok-status''
              (JObj [(''type'', JStr ''connected''),
                     (''username'', JStr u),
                     (''roomInfo'', JObj [(''title'', title), (''viewers'', n)])])]"
    by (simp add: e connect_then_def assms(4) t since_def)
  have dist: "distinct (map fst (activeConnections s))" using i by (simp add: inv_def)
  have one: "records_for u (connect_fulfilled cid state dout s) = 1"
    if "registry_get u s = Some c'" for c'
    using that dist by (simp add: records_for_def a registry_get_def records_for_one)
  have b: "records_for u (connect_fulfilled cid state dout s) = 1
            \<and> record_state u s = Some Connecting
            \<and> record_state u (connect_fulfilled cid state dout s) = Some Live"
    if r: "registry_get u s = Some cid"
  proof -
    have "record_state u s = Some Connecting"
      by (simp add: record_state_def r assms(2,3))
    moreover have "record_state u (connect_fulfilled cid state dout s) = Some Live"
      using r assms(2) by (simp add: record_state_def registry_get_def a cn)
    ultimately show ?thesis using one[OF r] by simp
  qed
  have c: "records_for u (connect_fulfilled cid state dout s) = 0
            \<and> record_state u (connect_fulfilled cid state dout s) = None"
    if r: "registry_get u s = None"
  proof -
    have "u \<notin> fst ` set (activeConnections s)"
      using r by (simp add: registry_get_def map_of_eq_None_iff)
    then have "records_for u (connect_fulfilled cid state dout s) = 0"
      by (simp add: records_for_def a filter_fresh)
    moreover have "record_state u (connect_fulfilled cid state dout s) = None"
      using r by (simp add: record_state_def registry_get_def a)
    ultimately show ?thesis by simp
  qed
  have d: "\<forall>c'. registry_get u s = Some c' \<and> c' \<noteq> cid \<longrightarrow>
            records_for u (connect_fulfilled cid state dout s) = 1
            \<and> record_state u (connect_fulfilled cid state dout s) = record_state u s"
    using one record_state_other_session[OF _ _ a cn] by blast
  from a f b c d show ?thesis by blast
qed

theorem connect_success_live_and_broadcast_witness:
  "(0::nat) < length (conns (run [StartChat (Some ''alice'') CtorReturns] init))
   \<and> connectPromise (conns (run [StartChat (Some ''alice'') CtorReturns] init) ! 0)
       = Pending (StartChatThen ''alice'')
   \<and> get_prop (JObj [(''roomInfo'', JObj [(''title'', JStr ''Hi''), (''userCount'', JNum 5)])])
        ''roomInfo'' = Inr (JObj [(''title'', JStr ''Hi''), (''userCount'', JNum 5)])
   \<and> map_of [(''title'', JStr ''Hi''), (''userCount'', JNum 5)] ''title'' = Some (JStr ''Hi'')
   \<and> map_of [(''title'', JStr ''Hi''), (''userCount'', JNum 5)] ''userCount'' = Some (JNum 5)
   \<and> registry_get ''alice'' (run [StartChat (Some ''alice'') CtorReturns] init) = Some 0
   \<and> record_state ''alice''
        (connect_fulfilled 0
           (JObj [(''roomInfo'', JObj [(''title'', JStr ''Hi''), (''userCount'', JNum 5)])])
           DisconnectReturns
           (run [StartChat (Some ''alice'') CtorReturns] init)) = Some Live
   \<and> since (run [StartChat (Some ''alice'') CtorReturns] init)
        (connect_fulfilled 0
           (JObj [(''roomInfo'', JObj [(''title'', JStr ''Hi''), (''userCount'', JNum 5)])])
           DisconnectReturns
           (run [StartChat (Some ''alice'') CtorReturns] init)) =
       [Emit ''tiktok-status''
          (JObj [(''type'', JStr ''connected''),
                 (''username'', JStr ''alice''),
                 (''roomInfo'', JObj [(''title'', JStr ''Hi''), (''viewers'', JNum 5)])])]"
proof -
  have h2: "(0::nat) < length (conns (run [StartChat (Some ''alice'') CtorReturns] init))"
    by code_simp
  have h3: "connectPromise (conns (run [StartChat (Some ''alice'') CtorReturns] init) ! 0)
       = Pending (StartChatThen ''alice'')"
    by code_simp
  have h4: "get_prop (JObj [(''roomInfo'', JObj [(''title'', JStr ''Hi''), (''userCount'', JNum 5)])])
        ''roomInfo'' = Inr (JObj [(''title'', JStr ''Hi''), (''userCount'', JNum 5)])"
    by (simp add: obj_prop_def)
  have h5: "map_of [(''title'', JStr ''Hi''), (''userCount'', JNum 5)] ''title'' = Some (JStr ''Hi'')"
    by simp
  have h6: "map_of [(''title'', JStr ''Hi''), (''userCount'', JNum 5)] ''userCount'' = Some (JNum 5)"
    by simp
  have r: "registry_get ''alice'' (run [StartChat (Some ''alice'') CtorReturns] init) = Some 0"
    by code_simp
  show ?thesis
    using h2 h3 h4 h5 h6 r
      connect_success_live_and_broadcast[OF refl h2 h3 h4 h5 h6, of DisconnectReturns]
    by blast
qed

text \<open>
  C4 as stated fails when the session is stopped before its connect resolves: the
  \<^verbatim>\<open>connected\<close> event is broadcast all the same, and the map has no record for the
  username, so none that is \<open>Live\<close>.
\<close>

theorem connect_success_after_stop_counterexample:
  "since (run [StartChat (Some ''alice'') CtorReturns,
               StopChat (Some ''alice'') DisconnectReturns] init)
     (connect_fulfilled 0
        (JObj [(''roomInfo'', JObj [(''title'', JStr ''Hi''), (''userCount'', JNum 5)])])
        DisconnectReturns
        (run [StartChat (Some ''alice'') CtorReturns,
              StopChat (Some ''alice'') DisconnectReturns] init)) =
     [Emit ''tiktok-status''
        (JObj [(''type'', JStr ''connected''),
               (''username'', JStr ''alice''),
               (''roomInfo'', JObj [(''title'', JStr ''Hi''), (''viewers'', JNum 5)])])]
   \<and> records_for ''alice''
        (connect_fulfilled 0
           (JObj [(''roomInfo'', JObj [(''title'', JStr ''Hi''), (''userCount'', JNum 5)])])
           DisconnectReturns
           (run [StartChat (Some ''alice'') CtorReturns,
                 StopChat (Some ''alice'') DisconnectReturns] init)) = 0
   \<and> record_state ''alice''
        (connect_fulfilled 0
           (JObj [(''roomInfo'', JObj [(''title'', JStr ''Hi''), (''userCount'', JNum 5)])])
           DisconnectReturns
           (run [StartChat (Some ''alice'') CtorReturns,
                 StopChat (Some ''alice'') DisconnectReturns] init)) = None"
  by code_simp

section \<open>Listeners stay attached\<close>

lemma keeps_listenersI:
  assumes "length (conns s) \<le> length (conns s')"
    and "\<And>i. i < length (conns s) \<Longrightarrow> listeners (conns s' ! i) = listeners (conns s ! i)"
  shows "keeps_listeners s s'"
  using assms by (simp add: keeps_listeners_def list_all_iff)

lemma keeps_listenersD:
  assumes "keeps_listeners s s'" and "i < length (conns s)"
  shows "i < length (conns s')" and "listeners (conns s' ! i) = listeners (conns s ! i)"
  using assms by (simp_all add: keeps_listeners_def list_all_iff)

lemma keeps_same: "conns s' = conns s \<Longrightarrow> keeps_listeners s s'"
  by (rule keeps_listenersI) simp_all

lemma keeps_trans:
  assumes "keeps_listeners s s'" and "keeps_listeners s' s''"
  shows "keeps_listeners s s''"
proof (rule keeps_listenersI)
  show "length (conns s) \<le> length (conns s'')"
    using assms by (simp add: keeps_listeners_def)
next
  fix i assume i: "i < length (conns s)"
  have i': "i < length (conns s')" by (rule keeps_listenersD(1)[OF assms(1) i])
  show "listeners (conns s'' ! i) = listeners (conns s ! i)"
    using keeps_listenersD(2)[OF assms(2) i'] keeps_listenersD(2)[OF assms(1) i] by simp
qed

lemma keeps_upd_conn:
  assumes "\<And>c. listeners (f c) = listeners c"
  shows "keeps_listeners s (upd_conn cid f s)"
  by (rule keeps_listenersI) (simp_all add: listeners_upd[of f, OF assms])

lemma keeps_append: "conns s' = conns s @ cs \<Longrightarrow> keeps_listeners s s'"
  by (rule keeps_listenersI) (simp_all add: nth_append)

lemma keeps_call_disconnect: "keeps_listeners s (call_disconnect cid s)"
proof -
  have "keeps_listeners s (upd_conn cid (\<lambda>c. c\<lparr>disconnectCalls := Suc (disconnectCalls c)\<rparr>) s)"
    by (rule keeps_upd_conn) simp
  then show ?thesis by (simp add: keeps_listeners_def)
qed

lemma check_live_catch_conns [simp]: "conns (check_live_catch sent u e s) = conns s"
  by (simp add: check_live_catch_def split: sum.splits)

lemma connect_catch_conns [simp]: "conns (connect_catch u err s) = conns s"
  by (simp add: connect_catch_def Let_def split: sum.splits)

lemma connect_then_conns [simp]: "conns (connect_then u state s) = conns s"
  by (simp add: connect_then_def split: sum.splits)

lemma run_listener_conns [simp]: "conns (run_listener l d now s) = conns s"
  by (cases l) simp_all

lemma fold_listeners_conns [simp]: "conns (fold (\<lambda>l. run_listener l d now) ls s) = conns s"
  by (induction ls arbitrary: s) simp_all

lemma upstream_emit_conns [simp]: "conns (upstream_emit cid ev d now s) = conns s"
  by (simp add: upstream_emit_def)

lemma keeps_check_live: "keeps_listeners s (check_live username ctor s)"
  by (rule keeps_listenersI)
     (simp_all add: check_live_def Let_def nth_append split: option.splits ctor_outcome.splits)

lemma keeps_start_chat: "keeps_listeners s (start_chat username ctor s)"
proof (cases "\<exists>u. username = Some u \<and> u \<noteq> [] \<and> \<not> registry_has u s \<and> ctor = CtorReturns")
  case True
  then obtain u where u: "username = Some u" "u \<noteq> []" "\<not> registry_has u s" "ctor = CtorReturns"
    by blast
  show ?thesis
    unfolding u(1,4) by (rule keeps_append) (simp add: start_chat_fresh[OF u(2,3)])
next
  case False
  then have "conns (start_chat username ctor s) = conns s"
    by (auto simp: start_chat_def start_chat_catch_def split: option.splits ctor_outcome.splits sum.splits)
  then show ?thesis by (rule keeps_same)
qed

lemma listeners_nth_disconnect [simp]:
  "i < length xs \<Longrightarrow> listeners (xs[cid := (xs ! cid)\<lparr>disconnectCalls := n\<rparr>] ! i) = listeners (xs ! i)"
  by (cases "i = cid") simp_all

lemma listeners_nth_promise [simp]:
  "i < length xs \<Longrightarrow> listeners (xs[cid := (xs ! cid)\<lparr>connectPromise := p\<rparr>] ! i) = listeners (xs ! i)"
  by (cases "i = cid") simp_all

lemma listeners_nth_promise_disconnect [simp]:
  "i < length xs \<Longrightarrow>
   listeners (xs[cid := (xs ! cid)\<lparr>connectPromise := p, disconnectCalls := n\<rparr>] ! i)
     = listeners (xs ! i)"
  by (cases "i = cid") simp_all

lemma keeps_stop_chat: "keeps_listeners s (stop_chat username dout s)"
  by (rule keeps_listenersI)
     (simp_all add: stop_chat_def Let_def split: option.splits disconnect_outcome.splits)

lemma keeps_connect_fulfilled: "keeps_listeners s (connect_fulfilled cid state dout s)"
  by (rule keeps_listenersI)
     (simp_all add: connect_fulfilled_def Let_def check_live_fulfilled_def
        split: promise.splits continuation.splits disconnect_outcome.splits)

lemma keeps_connect_rejected: "keeps_listeners s (connect_rejected cid err s)"
  by (rule keeps_listenersI)
     (simp_all add: connect_rejected_def Let_def check_live_rejected_def
        split: promise.splits continuation.splits)

lemma keeps_step: "keeps_listeners s (step ev s)"
  by (cases ev)
     (simp_all add: keeps_check_live keeps_start_chat keeps_stop_chat keeps_connect_fulfilled
        keeps_connect_rejected keeps_same get_root_def)

lemma keeps_run: "keeps_listeners s (run evs s)"
proof (induction evs arbitrary: s)
  case Nil
  show ?case by (simp add: run_def keeps_same)
next
  case (Cons ev evs)
  have "keeps_listeners s (step ev s)" by (rule keeps_step)
  moreover have "keeps_listeners (step ev s) (run evs (step ev s))" by (rule Cons.IH)
  ultimately have "keeps_listeners s (run evs (step ev s))" by (rule keeps_trans)
  then show ?case by (simp add: run_def)
qed

section \<open>Upstream events on a wired session\<close>

lemma upstream_emit_wired:
  assumes "cid < length (conns s)" and "listeners (conns s ! cid) = wired u"
  shows "upstream_emit cid ''chat'' d now s = run_listener OnChat d now s"
    and "upstream_emit cid ''member'' d now s = run_listener OnMember d now s"
    and "upstream_emit cid ''like'' d now s = run_listener OnLike d now s"
    and "upstream_emit cid ''gift'' d now s = run_listener OnGift d now s"
    and "upstream_emit cid ''share'' d now s = run_listener OnShare d now s"
    and "upstream_emit cid ''follow'' d now s = run_listener OnFollow d now s"
    and "upstream_emit cid ''streamEnd'' d now s = run_listener (OnStreamEnd u) d now s"
    and "upstream_emit cid ''disconnected'' d now s = run_listener (OnDisconnected u) d now s"
  using assms by (simp_all add: upstream_emit_def wired_def)

lemma registered_wired:
  assumes "s = run evs init" and "registry_get u s = Some cid"
  shows "u \<noteq> []" and "cid < length (conns s)" and "listeners (conns s ! cid) = wired u"
    and "distinct (map fst (activeConnections s))"
proof -
  have i: "inv s" unfolding assms(1) by (rule inv_reachable)
  have mem: "(u, cid) \<in> set (activeConnections s)"
    using assms(2) by (simp add: registry_get_def map_of_SomeD)
  show "u \<noteq> []" "cid < length (conns s)" "listeners (conns s ! cid) = wired u"
    using i mem by (auto simp: inv_def registry_ok_def list_all_iff)
  show "distinct (map fst (activeConnections s))" using i by (simp add: inv_def)
qed

text \<open>
  C10. The six fan-out listeners of a session that \<^verbatim>\<open>/api/start-chat\<close> has wired stay
  attached whatever happens afterwards, and they never look at \<^verbatim>\<open>activeConnections\<close>:
  after any later sequence of events (a stop request, a \<^verbatim>\<open>streamEnd\<close>, a
  \<^verbatim>\<open>disconnected\<close>, a failed connect, which delete the record), each upstream \<^verbatim>\<open>chat\<close>,
  \<^verbatim>\<open>member\<close>, \<^verbatim>\<open>like\<close>, \<^verbatim>\<open>gift\<close>, \<^verbatim>\<open>share\<close> or \<^verbatim>\<open>follow\<close> event of that session runs its
  listener, which broadcasts once and leaves the map alone, and the broadcast is the same
  with any other content of the map.
\<close>

theorem fanout_ignores_registry:
  assumes "u \<noteq> []" and "\<not> registry_has u s"
    and "s2 = run evs (start_chat (Some u) CtorReturns s)"
    and "(ev, l) \<in> set (take 6 (wired u))"
  shows "upstream_emit (length (conns s)) ev d now s2 = run_listener l d now s2
       \<and> length (since s2 (upstream_emit (length (conns s)) ev d now s2)) = 1
       \<and> broadcasts (since s2 (upstream_emit (length (conns s)) ev d now s2))
           = since s2 (upstream_emit (length (conns s)) ev d now s2)
       \<and> activeConnections (upstream_emit (length (conns s)) ev d now s2) = activeConnections s2
       \<and> since (s2\<lparr>activeConnections := reg\<rparr>)
            (upstream_emit (length (conns s)) ev d now (s2\<lparr>activeConnections := reg\<rparr>))
           = since s2 (upstream_emit (length (conns s)) ev d now s2)"
proof -
  let ?s1 = "start_chat (Some u) CtorReturns s"
  let ?cid = "length (conns s)"
  have c1: "?cid < length (conns ?s1)" "listeners (conns ?s1 ! ?cid) = wired u"
    by (simp_all add: start_chat_fresh[OF assms(1,2)])
  have k: "keeps_listeners ?s1 s2" unfolding assms(3) by (rule keeps_run)
  have c2: "?cid < length (conns s2)" "listeners (conns s2 ! ?cid) = wired u"
    using keeps_listenersD[OF k c1(1)] c1(2) by simp_all
  have c3: "?cid < length (conns (s2\<lparr>activeConnections := reg\<rparr>))"
    "listeners (conns (s2\<lparr>activeConnections := reg\<rparr>) ! ?cid) = wired u"
    using c2 by simp_all
  note e2 = upstream_emit_wired[OF c2]
  note e3 = upstream_emit_wired[OF c3]
  from assms(4) have "(ev, l) \<in> {(''chat'', OnChat), (''member'', OnMember), (''like'', OnLike),
      (''gift'', OnGift), (''share'', OnShare), (''follow'', OnFollow)}"
    by (simp add: wired_def)
  then show ?thesis
    by (elim insertE emptyE)
       (simp_all add: e2 e3 since_def broadcasts_def is_emit_def)
qed

theorem fanout_ignores_registry_witness:
  "''alice'' \<noteq> [] \<and> \<not> registry_has ''alice'' init
   \<and> (''chat'', OnChat) \<in> set (take 6 (wired ''alice''))
   \<and> registry_get ''alice''
        (run [StopChat (Some ''alice'') DisconnectReturns]
           (start_chat (Some ''alice'') CtorReturns init)) = None
   \<and> length (since
        (run [StopChat (Some ''alice'') DisconnectReturns]
           (start_chat (Some ''alice'') CtorReturns init))
        (upstream_emit (length (conns init)) ''chat'' [(''uniqueId'', JStr ''bob'')] 0
           (run [StopChat (Some ''alice'') DisconnectReturns]
              (start_chat (Some ''alice'') CtorReturns init)))) = 1"
proof -
  have h1: "''alice'' \<noteq> []" by simp
  have h2: "\<not> registry_has ''alice'' init" by (simp add: registry_has_def init_def)
  have h4: "(''chat'', OnChat) \<in> set (take 6 (wired ''alice''))" by (simp add: wired_def)
  have h5: "registry_get ''alice''
        (run [StopChat (Some ''alice'') DisconnectReturns]
           (start_chat (Some ''alice'') CtorReturns init)) = None"
    by code_simp
  show ?thesis
    using h1 h2 h4 h5
      fanout_ignores_registry[OF h1 h2 refl h4,
        where evs = "[StopChat (Some ''alice'') DisconnectReturns]"
          and d = "[(''uniqueId'', JStr ''bob'')]" and now = 0]
    by blast
qed

section \<open>Checking whether a user is live\<close>

lemma check_live_begin:
  assumes "u \<noteq> []"
  shows "conns (check_live (Some u) CtorReturns s) = conns s @
           [\<lparr>uniqueId = u, options = check_live_options, listeners = [],
             connectPromise = Pending (CheckLiveAwait u), disconnectCalls = 0\<rparr>]"
    and "trace (check_live (Some u) CtorReturns s) = trace s @
           [Construct (length (conns s)) u check_live_options, CallConnect (length (conns s))]"
  using assms by (simp_all add: check_live_def Let_def)

lemma connect_fulfilled_check:
  assumes "cid < length (conns s)" and "connectPromise (conns s ! cid) = Pending (CheckLiveAwait u)"
  shows "connect_fulfilled cid state dout s =
           check_live_fulfilled u cid dout (upd_conn cid (\<lambda>c. c\<lparr>connectPromise := Fulfilled\<rparr>) s)"
  using assms by (simp add: connect_fulfilled_def)

lemma connect_rejected_check:
  assumes "cid < length (conns s)" and "connectPromise (conns s ! cid) = Pending (CheckLiveAwait u)"
  shows "connect_rejected cid err s =
           check_live_rejected u err (upd_conn cid (\<lambda>c. c\<lparr>connectPromise := Rejected\<rparr>) s)"
  using assms by (simp add: connect_rejected_def)

text \<open>
  C9, as the code has it. \<^verbatim>\<open>/api/check-live\<close> never touches \<^verbatim>\<open>activeConnections\<close>. The
  request, whatever the username and whatever the constructor does, leaves the map as it
  is; for a username it constructs a throwaway session, calls \<^verbatim>\<open>connect()\<close> and waits. In
  any later state \<open>s\<close> where that connect is still pending, its settlement leaves the map
  as it is too, whatever the outcome. When the connect succeeds the handler answers
  \<^verbatim>\<open>isLive: true\<close> and then calls \<^verbatim>\<open>disconnect()\<close> on the session. When it fails, or the
  constructor throws, the \<^verbatim>\<open>catch\<close> block reads \<^verbatim>\<open>error.message\<close>: for every error but
  \<^verbatim>\<open>undefined\<close> and \<^verbatim>\<open>null\<close> the handler answers \<^verbatim>\<open>isLive: false\<close> with that message; for
  \<^verbatim>\<open>undefined\<close> or \<^verbatim>\<open>null\<close> the read throws and no response is sent.
\<close>

theorem check_live_leaves_registry:
  assumes "u \<noteq> []"
    and "cid < length (conns s)"
    and "connectPromise (conns s ! cid) = Pending (CheckLiveAwait u)"
  shows "activeConnections (check_live username ctor s0) = activeConnections s0
       \<and> since s0 (check_live (Some u) CtorReturns s0) =
           [Construct (length (conns s0)) u check_live_options, CallConnect (length (conns s0))]
       \<and> connectPromise (conns (check_live (Some u) CtorReturns s0) ! length (conns s0))
           = Pending (CheckLiveAwait u)
       \<and> activeConnections (connect_fulfilled cid state dout s) = activeConnections s
       \<and> take 2 (since s (connect_fulfilled cid state dout s)) =
           [Respond 200
              (JObj [(''isLive'', JBool True),
                     (''username'', JStr u),
                     (''message'', JStr (''Usuario est'' @ a_acute @ '' en vivo''))]),
            CallDisconnect cid]
       \<and> activeConnections (connect_rejected cid err s) = activeConnections s
       \<and> (err \<noteq> JUndefined \<and> err \<noteq> JNull \<longrightarrow>
            since s (connect_rejected cid err s) =
              [Respond 200
                 (JObj [(''isLive'', JBool False),
                        (''username'', JStr u),
                        (''message'', JStr (''Usuario NO est'' @ a_acute
                            @ '' en vivo o el username es incorrecto'')),
                        (''error'', opt_prop err ''message'')])]
            \<and> since s0 (check_live (Some u) (CtorThrows err) s0) =
              [Respond 200
                 (JObj [(''isLive'', JBool False),
                        (''username'', JStr u),
                        (''message'', JStr (''Usuario NO est'' @ a_acute
                            @ '' en vivo o el username es incorrecto'')),
                        (''error'', opt_prop err ''message'')])])
       \<and> (err = JUndefined \<or> err = JNull \<longrightarrow>
            since s (connect_rejected cid err s) = [Unhandled (type_error err ''message'')]
            \<and> since s0 (check_live (Some u) (CtorThrows err) s0)
                = [Unhandled (type_error err ''message'')])"
proof -
  note b = check_live_begin[OF assms(1), of s0]
  note f = connect_fulfilled_check[OF assms(2,3)]
  note r = connect_rejected_check[OF assms(2,3)]
  have a: "activeConnections (check_live username ctor s0) = activeConnections s0"
    by (rule check_live_registry)
  have a2: "since s0 (check_live (Some u) CtorReturns s0) =
           [Construct (length (conns s0)) u check_live_options, CallConnect (length (conns s0))]"
    by (simp add: since_def b)
  have a3: "connectPromise (conns (check_live (Some u) CtorReturns s0) ! length (conns s0))
           = Pending (CheckLiveAwait u)"
    by (simp add: b)
  have c: "activeConnections (connect_fulfilled cid state dout s) = activeConnections s"
    by (simp add: f check_live_fulfilled_registry)
  have d: "take 2 (since s (connect_fulfilled cid state dout s)) =
           [Respond 200
              (JObj [(''isLive'', JBool True),
                     (''username'', JStr u),
                     (''message'', JStr (''Usuario est'' @ a_acute @ '' en vivo''))]),
            CallDisconnect cid]"
    by (cases dout)
       (simp_all add: f check_live_fulfilled_def check_live_catch_def Let_def since_def
          split: sum.splits)
  have e: "activeConnections (connect_rejected cid err s) = activeConnections s"
    by (simp add: r check_live_rejected_registry)
  have g: "since s (connect_rejected cid err s) =
              [Respond 200
                 (JObj [(''isLive'', JBool False),
                        (''username'', JStr u),
                        (''message'', JStr (''Usuario NO est'' @ a_acute
                            @ '' en vivo o el username es incorrecto'')),
                        (''error'', opt_prop err ''message'')])]
            \<and> since s0 (check_live (Some u) (CtorThrows err) s0) =
              [Respond 200
                 (JObj [(''isLive'', JBool False),
                        (''username'', JStr u),
                        (''message'', JStr (''Usuario NO est'' @ a_acute
                            @ '' en vivo o el username es incorrecto'')),
                        (''error'', opt_prop err ''message'')])]"
    if "err \<noteq> JUndefined \<and> err \<noteq> JNull"
    using that assms(1)
    by (simp add: r check_live_rejected_def check_live_def check_live_catch_def
          get_prop_value since_def)
  have h: "since s (connect_rejected cid err s) = [Unhandled (type_error err ''message'')]
            \<and> since s0 (check_live (Some u) (CtorThrows err) s0)
                = [Unhandled (type_error err ''message'')]"
    if "err = JUndefined \<or> err = JNull"
    using assms(1)
    by (simp add: r check_live_rejected_def check_live_def check_live_catch_def
          get_prop_nullish[OF that] since_def)
  from a a2 a3 c d e g h show ?thesis by blast
qed

theorem check_live_leaves_registry_witness:
  "''alice'' \<noteq> []
   \<and> (1::nat) < length (conns (run [StartChat (Some ''bob'') CtorReturns,
                                      CheckLive (Some ''alice'') CtorReturns] init))
   \<and> connectPromise (conns (run [StartChat (Some ''bob'') CtorReturns,
                                  CheckLive (Some ''alice'') CtorReturns] init) ! 1)
       = Pending (CheckLiveAwait ''alice'')
   \<and> activeConnections
        (connect_fulfilled 1 JUndefined DisconnectReturns
           (run [StartChat (Some ''bob'') CtorReturns, CheckLive (Some ''alice'') CtorReturns] init))
       = activeConnections
           (run [StartChat (Some ''bob'') CtorReturns, CheckLive (Some ''alice'') CtorReturns] init)
   \<and> activeConnections
        (connect_rejected 1 (JObj [(''message'', JStr ''offline'')])
           (run [StartChat (Some ''bob'') CtorReturns, CheckLive (Some ''alice'') CtorReturns] init))
       = activeConnections
           (run [StartChat (Some ''bob'') CtorReturns, CheckLive (Some ''alice'') CtorReturns] init)
   \<and> since
        (run [StartChat (Some ''bob'') CtorReturns, CheckLive (Some ''alice'') CtorReturns] init)
        (connect_rejected 1 (JObj [(''message'', JStr ''offline'')])
           (run [StartChat (Some ''bob'') CtorReturns, CheckLive (Some ''alice'') CtorReturns] init))
       = [Respond 200
            (JObj [(''isLive'', JBool False),
                   (''username'', JStr ''alice''),
                   (''message'', JStr (''Usuario NO est'' @ a_acute
                       @ '' en vivo o el username es incorrecto'')),
                   (''error'', JStr ''offline'')])]"
proof -
  have h1: "''alice'' \<noteq> []" by simp
  have h2: "(1::nat) < length (conns (run [StartChat (Some ''bob'') CtorReturns,
                                      CheckLive (Some ''alice'') CtorReturns] init))"
    by code_simp
  have h3: "connectPromise (conns (run [StartChat (Some ''bob'') CtorReturns,
                                  CheckLive (Some ''alice'') CtorReturns] init) ! 1)
       = Pending (CheckLiveAwait ''alice'')"
    by code_simp
  have ne: "JObj [(''message'', JStr ''offline'')] \<noteq> JUndefined"
    "JObj [(''message'', JStr ''offline'')] \<noteq> JNull"
    by simp_all
  have m: "opt_prop (JObj [(''message'', JStr ''offline'')]) ''message'' = JStr ''offline''"
    by (simp add: opt_prop_def obj_prop_def)
  show ?thesis
    using h1 h2 h3 ne
      check_live_leaves_registry[OF h1 h2 h3,
        where state = JUndefined and dout = DisconnectReturns
          and err = "JObj [(''message'', JStr ''offline'')]"]
    unfolding m by blast
qed

text \<open>
  C9 as stated fails when the connect rejects with \<^verbatim>\<open>undefined\<close>: the \<^verbatim>\<open>catch\<close> block throws
  at \<^verbatim>\<open>error.message\<close>, and the request gets no response at all, so no "not live".
\<close>

theorem check_live_undefined_reason_counterexample:
  "since (check_live (Some ''alice'') CtorReturns init)
     (connect_rejected 0 JUndefined (check_live (Some ''alice'') CtorReturns init))
   = [Unhandled (type_error JUndefined ''message'')]"
  by code_simp

section \<open>The end of a stream\<close>

text \<open>
  C5, as the code has it. For a username with a record, a \<^verbatim>\<open>streamEnd\<close> or a
  \<^verbatim>\<open>disconnected\<close> event of the session of the record runs one listener, which
  broadcasts one \<^verbatim>\<open>tiktok-status\<close> event (type \<^verbatim>\<open>ended\<close>, or \<^verbatim>\<open>disconnected\<close>) for the
  username and then deletes the record. The map that results is the one a stop request
  leaves. No session is touched: unlike the stop request, the listener does not call
  \<^verbatim>\<open>disconnect()\<close>.
\<close>

theorem upstream_teardown_removes_record:
  assumes "s = run evs init" and "registry_get u s = Some cid"
  shows "since s (upstream_emit cid ''streamEnd'' d now s) =
           [Emit ''tiktok-status''
              (JObj [(''type'', JStr ''ended''),
                     (''username'', JStr u),
                     (''message'', JStr ''El stream ha terminado'')]),
            RegistryDelete u]
       \<and> since s (upstream_emit cid ''disconnected'' d now s) =
           [Emit ''tiktok-status''
              (JObj [(''type'', JStr ''disconnected''), (''username'', JStr u)]),
            RegistryDelete u]
       \<and> registry_get u (upstream_emit cid ''streamEnd'' d now s) = None
       \<and> registry_get u (upstream_emit cid ''disconnected'' d now s) = None
       \<and> activeConnections (upstream_emit cid ''streamEnd'' d now s)
           = activeConnections (stop_chat (Some u) DisconnectReturns s)
       \<and> activeConnections (upstream_emit cid ''disconnected'' d now s)
           = activeConnections (stop_chat (Some u) DisconnectReturns s)
       \<and> conns (upstream_emit cid ''streamEnd'' d now s) = conns s
       \<and> conns (upstream_emit cid ''disconnected'' d now s) = conns s"
proof -
  note w = registered_wired[OF assms]
  note e = upstream_emit_wired(7,8)[OF w(2,3)]
  note st = stop_chat_registered[OF w(1) assms(2)]
  show ?thesis
    by (simp add: e st Let_def since_def registry_get_def)
qed

theorem upstream_teardown_removes_record_witness:
  "registry_get ''alice'' (run [StartChat (Some ''alice'') CtorReturns] init) = Some 0
   \<and> registry_get ''alice''
        (upstream_emit 0 ''streamEnd'' [] 0 (run [StartChat (Some ''alice'') CtorReturns] init)) = None
   \<and> conns (upstream_emit 0 ''streamEnd'' [] 0 (run [StartChat (Some ''alice'') CtorReturns] init))
       = conns (run [StartChat (Some ''alice'') CtorReturns] init)"
proof -
  have h2: "registry_get ''alice'' (run [StartChat (Some ''alice'') CtorReturns] init) = Some 0"
    by code_simp
  show ?thesis
    using h2 upstream_teardown_removes_record[OF refl h2, where d = "[]" and now = 0]
    by blast
qed

text \<open>
  C5 as stated fails on the upstream disconnect: after a stop request the session has
  received a \<^verbatim>\<open>disconnect()\<close> call, after a \<^verbatim>\<open>streamEnd\<close> or \<^verbatim>\<open>disconnected\<close> event it has
  received none.
\<close>

theorem upstream_teardown_no_disconnect_counterexample:
  "map disconnectCalls
     (conns (stop_chat (Some ''alice'') DisconnectReturns
               (run [StartChat (Some ''alice'') CtorReturns] init))) = [1]
   \<and> map disconnectCalls
     (conns (upstream_emit 0 ''streamEnd'' [] 0
               (run [StartChat (Some ''alice'') CtorReturns] init))) = [0]
   \<and> map disconnectCalls
     (conns (upstream_emit 0 ''disconnected'' [] 0
               (run [StartChat (Some ''alice'') CtorReturns] init))) = [0]"
  by code_simp

section \<open>Listeners are attached before the connect settles\<close>

text \<open>
  C7. An accepted start request calls \<^verbatim>\<open>connect()\<close> and then \<^verbatim>\<open>on\<close> for \<^verbatim>\<open>chat\<close>,
  \<^verbatim>\<open>member\<close>, \<^verbatim>\<open>like\<close>, \<^verbatim>\<open>gift\<close>, \<^verbatim>\<open>share\<close>, \<^verbatim>\<open>follow\<close>, \<^verbatim>\<open>streamEnd\<close> and \<^verbatim>\<open>disconnected\<close> in
  one turn of the event loop, and returns with the connect promise pending. So in every
  reachable state a session whose start-chat connect has not settled yet carries all
  eight listeners: when the promise settles, in a later turn, and from then on, an
  upstream event finds its listener.
\<close>

theorem listeners_attached_before_connect_settles:
  assumes "s = run evs init"
    and "cid < length (conns s)"
    and "connectPromise (conns s ! cid) = Pending (StartChatThen u)"
    and "v \<noteq> []" and "\<not> registry_has v s"
  shows "map fst (listeners (conns s ! cid)) =
           [''chat'', ''member'', ''like'', ''gift'', ''share'', ''follow'',
            ''streamEnd'', ''disconnected'']
       \<and> listeners (conns s ! cid) = wired u
       \<and> listeners (conns (connect_fulfilled cid state dout s) ! cid) = wired u
       \<and> listeners (conns (connect_rejected cid err s) ! cid) = wired u
       \<and> since s (start_chat (Some v) CtorReturns s) =
           [Construct (length (conns s)) v start_chat_options,
            RegistrySet v (length (conns s)),
            CallConnect (length (conns s)),
            CallOn (length (conns s)) ''chat'',
            CallOn (length (conns s)) ''member'',
            CallOn (length (conns s)) ''like'',
            CallOn (length (conns s)) ''gift'',
            CallOn (length (conns s)) ''share'',
            CallOn (length (conns s)) ''follow'',
            CallOn (length (conns s)) ''streamEnd'',
            CallOn (length (conns s)) ''disconnected'',
            Respond 200
              (JObj [(''success'', JBool True),
                     (''message'', JStr (''Conexi'' @ o_acute @ ''n iniciada'')),
                     (''username'', JStr v)])]
       \<and> connectPromise (conns (start_chat (Some v) CtorReturns s) ! length (conns s))
           = Pending (StartChatThen v)
       \<and> listeners (conns (start_chat (Some v) CtorReturns s) ! length (conns s)) = wired v"
proof -
  have i: "inv s" unfolding assms(1) by (rule inv_reachable)
  then have "conn_ok (conns s ! cid)"
    using assms(2) by (simp add: inv_def list_all_length)
  then have w: "listeners (conns s ! cid) = wired u"
    using assms(3) by (simp add: conn_ok_def)
  have a: "map fst (listeners (conns s ! cid)) =
           [''chat'', ''member'', ''like'', ''gift'', ''share'', ''follow'',
            ''streamEnd'', ''disconnected'']"
    by (simp add: w wired_def)
  have b: "listeners (conns (connect_fulfilled cid state dout s) ! cid) = wired u"
    using keeps_listenersD(2)[OF keeps_connect_fulfilled assms(2)] w by simp
  have c: "listeners (conns (connect_rejected cid err s) ! cid) = wired u"
    using keeps_listenersD(2)[OF keeps_connect_rejected assms(2)] w by simp
  note e = start_chat_fresh[OF assms(4,5)]
  have d: "since s (start_chat (Some v) CtorReturns s) =
           [Construct (length (conns s)) v start_chat_options,
            RegistrySet v (length (conns s)),
            CallConnect (length (conns s)),
            CallOn (length (conns s)) ''chat'',
            CallOn (length (conns s)) ''member'',
            CallOn (length (conns s)) ''like'',
            CallOn (length (conns s)) ''gift'',
            CallOn (length (conns s)) ''share'',
            CallOn (length (conns s)) ''follow'',
            CallOn (length (conns s)) ''streamEnd'',
            CallOn (length (conns s)) ''disconnected'',
            Respond 200
              (JObj [(''success'', JBool True),
                     (''message'', JStr (''Conexi'' @ o_acute @ ''n iniciada'')),
                     (''username'', JStr v)])]"
    by (simp add: e since_def)
  have f: "connectPromise (conns (start_chat (Some v) CtorReturns s) ! length (conns s))
           = Pending (StartChatThen v)"
    "listeners (conns (start_chat (Some v) CtorReturns s) ! length (conns s)) = wired v"
    by (simp_all add: e)
  from a w b c d f show ?thesis by blast
qed

theorem listeners_attached_before_connect_settles_witness:
  "(0::nat) < length (conns (run [StartChat (Some ''alice'') CtorReturns] init))
   \<and> connectPromise (conns (run [StartChat (Some ''alice'') CtorReturns] init) ! 0)
       = Pending (StartChatThen ''alice'')
   \<and> ''bob'' \<noteq> []
   \<and> \<not> registry_has ''bob'' (run [StartChat (Some ''alice'') CtorReturns] init)
   \<and> map fst (listeners (conns (run [StartChat (Some ''alice'') CtorReturns] init) ! 0)) =
           [''chat'', ''member'', ''like'', ''gift'', ''share'', ''follow'',
            ''streamEnd'', ''disconnected'']
   \<and> listeners (conns (start_chat (Some ''bob'') CtorReturns
         (run [StartChat (Some ''alice'') CtorReturns] init))
         ! length (conns (run [StartChat (Some ''alice'') CtorReturns] init))) = wired ''bob''"
proof -
  have h2: "(0::nat) < length (conns (run [StartChat (Some ''alice'') CtorReturns] init))"
    by code_simp
  have h3: "connectPromise (conns (run [StartChat (Some ''alice'') CtorReturns] init) ! 0)
       = Pending (StartChatThen ''alice'')"
    by code_simp
  have h4: "''bob'' \<noteq> []" by simp
  have h5: "\<not> registry_has ''bob'' (run [StartChat (Some ''alice'') CtorReturns] init)"
    by code_simp
  show ?thesis
    using h2 h3 h4 h5
      listeners_attached_before_connect_settles[OF refl h2 h3 h4 h5]
    by blast
qed

section \<open>Calendar arithmetic\<close>

lemma div_bounds:
  fixes a k :: int
  assumes "0 < k"
  shows "k * (a div k) \<le> a" and "a < k * (a div k) + k"
proof -
  have e: "k * (a div k) + a mod k = a" by (rule mult_div_mod_eq)
  have "0 \<le> a mod k" "a mod k < k" using assms by simp_all
  with e show "k * (a div k) \<le> a" and "a < k * (a div k) + k" by linarith+
qed

lemma div_unique_bounds:
  fixes a k q :: int
  assumes "0 < k" "k * q \<le> a" "a < k * q + k"
  shows "a div k = q"
proof -
  define r where "r = a - k * q"
  have r: "0 \<le> r" "r < k" using assms by (simp_all add: r_def)
  have "a = k * q + r" by (simp add: r_def)
  then have "a div k = (k * q + r) div k" by simp
  also have "\<dots> = q + r div k" using assms(1) by (simp only: div_mult_self4)
  also have "r div k = 0" using r by (simp add: div_pos_pos_trivial)
  finally show ?thesis by simp
qed

lemma div_step:
  fixes a k :: int
  assumes "0 < k"
  shows "(a + 1) div k = a div k + (if (a + 1) mod k = 0 then 1 else 0)"
proof (cases "(a + 1) mod k = 0")
  case True
  have e: "k * ((a + 1) div k) + (a + 1) mod k = a + 1" by (rule mult_div_mod_eq)
  define q where "q = (a + 1) div k"
  have kq: "k * q = a + 1" using e True by (simp add: q_def)
  have "k * (q - 1) = a + 1 - k" by (simp add: kq right_diff_distrib)
  then have "k * (q - 1) \<le> a" "a < k * (q - 1) + k"
    using assms by linarith+
  then have "a div k = q - 1" by (rule div_unique_bounds[OF assms])
  then show ?thesis using True by (simp add: q_def)
next
  case False
  have b: "k * (a div k) \<le> a" "a < k * (a div k) + k" using div_bounds[OF assms] by auto
  have "a + 1 \<noteq> k * (a div k) + k"
  proof
    assume "a + 1 = k * (a div k) + k"
    then have "a + 1 = k * (a div k + 1)" by (simp add: algebra_simps)
    then have "(a + 1) mod k = 0" by simp
    with False show False by simp
  qed
  with b have "k * (a div k) \<le> a + 1" "a + 1 < k * (a div k) + k" by linarith+
  then have "(a + 1) div k = a div k" by (rule div_unique_bounds[OF assms])
  with False show ?thesis by simp
qed

lemma leap_mod4: "((y::int) - 1968) mod 4 = y mod 4"
proof -
  have "(y - 1968) mod 4 = (y + 4 * (- 492)) mod 4" by simp
  also have "\<dots> = y mod 4" by (rule mod_mult_self2)
  finally show ?thesis .
qed

lemma leap_mod100: "((y::int) - 1900) mod 100 = y mod 100"
proof -
  have "(y - 1900) mod 100 = (y + 100 * (- 19)) mod 100" by simp
  also have "\<dots> = y mod 100" by (rule mod_mult_self2)
  finally show ?thesis .
qed

lemma leap_mod400: "((y::int) - 1600) mod 400 = y mod 400"
proof -
  have "(y - 1600) mod 400 = (y + 400 * (- 4)) mod 400" by simp
  also have "\<dots> = y mod 400" by (rule mod_mult_self2)
  finally show ?thesis .
qed

lemma mod400_mod100: "(y::int) mod 400 = 0 \<Longrightarrow> y mod 100 = 0"
proof -
  assume "y mod 400 = 0"
  then have "400 dvd y" by (simp add: mod_eq_0_iff_dvd)
  moreover have "(100::int) dvd 400" by simp
  ultimately have "100 dvd y" by (rule dvd_trans[rotated])
  then show ?thesis by (simp add: mod_eq_0_iff_dvd)
qed

lemma mod100_mod4: "(y::int) mod 100 = 0 \<Longrightarrow> y mod 4 = 0"
proof -
  assume "y mod 100 = 0"
  then have "100 dvd y" by (simp add: mod_eq_0_iff_dvd)
  moreover have "(4::int) dvd 100" by simp
  ultimately have "4 dvd y" by (rule dvd_trans[rotated])
  then show ?thesis by (simp add: mod_eq_0_iff_dvd)
qed

text \<open>A year has \<open>DaysInYear\<close> days.\<close>

lemma DayFromYear_Suc: "DayFromYear (y + 1) = DayFromYear y + DaysInYear y"
proof -
  have a: "(y + 1 - 1969) div 4 = (y - 1969) div 4 + (if y mod 4 = 0 then 1 else 0)"
    using div_step[of 4 "y - 1969"] leap_mod4[of y] by (simp add: algebra_simps)
  have b: "(y + 1 - 1901) div 100 = (y - 1901) div 100 + (if y mod 100 = 0 then 1 else 0)"
    using div_step[of 100 "y - 1901"] leap_mod100[of y] by (simp add: algebra_simps)
  have c: "(y + 1 - 1601) div 400 = (y - 1601) div 400 + (if y mod 400 = 0 then 1 else 0)"
    using div_step[of 400 "y - 1601"] leap_mod400[of y] by (simp add: algebra_simps)
  show ?thesis
    unfolding DayFromYear_def DaysInYear_def a b c
    using mod400_mod100[of y] mod100_mod4[of y] by (auto simp: algebra_simps)
qed

text \<open>The first day of year \<open>y\<close> is within a day and a half of the mean year.\<close>

lemma DayFromYear_bounds:
  "146097 * y - 287811596 \<le> 400 * DayFromYear y"
  "400 * DayFromYear y \<le> 146097 * y - 287810501"
proof -
  define q4 where "q4 = (y - 1969) div 4"
  define q100 where "q100 = (y - 1901) div 100"
  define q400 where "q400 = (y - 1601) div 400"
  have a: "4 * q4 \<le> y - 1969" "y - 1969 < 4 * q4 + 4"
    unfolding q4_def by (rule div_bounds[OF zero_less_numeral])+
  have b: "100 * q100 \<le> y - 1901" "y - 1901 < 100 * q100 + 100"
    unfolding q100_def by (rule div_bounds[OF zero_less_numeral])+
  have c: "400 * q400 \<le> y - 1601" "y - 1601 < 400 * q400 + 400"
    unfolding q400_def by (rule div_bounds[OF zero_less_numeral])+
  have d: "400 * DayFromYear y = 146000 * y - 287620000 + 400 * q4 - 400 * q100 + 400 * q400"
    by (simp add: DayFromYear_def q4_def q100_def q400_def algebra_simps)
  have lo: "100 * y - 197200 \<le> 400 * q4" "400 * q100 \<le> 4 * y - 7604" "y - 2000 \<le> 400 * q400"
    using a(2) b(1) c(2) by linarith+
  have hi: "400 * q4 \<le> 100 * y - 196900" "4 * y - 8000 \<le> 400 * q100" "400 * q400 \<le> y - 1601"
    using a(1) b(2) c(1) by linarith+
  show "146097 * y - 287811596 \<le> 400 * DayFromYear y"
    unfolding d using lo by linarith
  show "400 * DayFromYear y \<le> 146097 * y - 287810501"
    unfolding d using hi by linarith
qed

text \<open>\<open>YearFromDay d\<close> is the year that contains day \<open>d\<close>.\<close>

lemma YearFromDay_spec:
  "DayFromYear (YearFromDay d) \<le> d" "d < DayFromYear (YearFromDay d + 1)"
proof -
  define y where "y = 1970 + (400 * d) div 146097"
  define q where "q = (400 * d) div 146097"
  have q: "146097 * q \<le> 400 * d" "400 * d < 146097 * q + 146097"
    unfolding q_def by (rule div_bounds[OF zero_less_numeral])+
  have yq: "y = 1970 + q" by (simp add: y_def q_def)
  define a where "a = DayFromYear (y - 1)"
  define b where "b = DayFromYear (y + 1 + 1)"
  have lo1: "400 * a \<le> 146097 * q - 145508"
    using DayFromYear_bounds(2)[of "y - 1"] by (simp add: a_def yq algebra_simps)
  have hi2: "146097 * q + 291688 \<le> 400 * b"
    using DayFromYear_bounds(1)[of "y + 1 + 1"] by (simp add: b_def yq algebra_simps)
  have below: "a \<le> d" using q(1) lo1 by linarith
  have above: "d < b" using q(2) hi2 by linarith
  have yd: "YearFromDay d =
      (if d < DayFromYear y then y - 1 else if DayFromYear (y + 1) \<le> d then y + 1 else y)"
    by (simp add: YearFromDay_def Let_def y_def)
  show "DayFromYear (YearFromDay d) \<le> d"
    using below by (simp add: yd a_def)
  show "d < DayFromYear (YearFromDay d + 1)"
    using above by (simp add: yd b_def)
qed

lemma DaysInYear_cases: "DaysInYear y = 365 \<or> DaysInYear y = 366"
  by (simp add: DaysInYear_def)

lemma DayWithinYear_bounds:
  "0 \<le> DayWithinYear t" "DayWithinYear t < DaysInYear (YearFromTime t)"
  using YearFromDay_spec[of "Day t"] DayFromYear_Suc[of "YearFromDay (Day t)"]
  by (simp_all add: DayWithinYear_def YearFromTime_def)

lemma Day_bounds:
  assumes "valid_time t"
  shows "- 100000000 \<le> Day t" "Day t \<le> 100000000"
proof -
  define q where "q = t div 86400000"
  have b: "86400000 * q \<le> t" "t < 86400000 * q + 86400000"
    unfolding q_def by (rule div_bounds[OF zero_less_numeral])+
  have v: "- 8640000000000000 \<le> t" "t \<le> 8640000000000000"
    using assms by (simp_all add: valid_time_def)
  have d: "Day t = q" by (simp add: Day_def msPerDay_def q_def)
  show "- 100000000 \<le> Day t" unfolding d using b v by linarith
  show "Day t \<le> 100000000" unfolding d using b v by linarith
qed

lemma YearFromTime_bounds:
  assumes "valid_time t"
  shows "- 271821 \<le> YearFromTime t" "YearFromTime t \<le> 275760"
proof -
  define y where "y = YearFromDay (Day t)"
  define a where "a = DayFromYear y"
  define b where "b = DayFromYear (y + 1)"
  note d = Day_bounds[OF assms]
  have s: "a \<le> Day t" "Day t < b"
    unfolding a_def b_def y_def by (rule YearFromDay_spec)+
  have lo: "146097 * y - 287811596 \<le> 400 * a"
    unfolding a_def by (rule DayFromYear_bounds)
  have hi: "400 * b \<le> 146097 * y - 287664404"
    using DayFromYear_bounds(2)[of "y + 1"] by (simp add: b_def algebra_simps)
  have yt: "YearFromTime t = y" by (simp add: YearFromTime_def y_def)
  show "- 271821 \<le> YearFromTime t" unfolding yt using d s hi by linarith
  show "YearFromTime t \<le> 275760" unfolding yt using d s lo by linarith
qed

section \<open>Decimal digits\<close>

lemma below_ten: "(k::nat) < 10 \<Longrightarrow> k \<in> {0, 1, 2, 3, 4, 5, 6, 7, 8, 9}"
  by auto

lemma digit_char_values: "map digit_char [0, 1, 2, 3, 4, 5, 6, 7, 8, 9] = ''0123456789''"
  by code_simp

lemma is_digit_digit_char: "k < 10 \<Longrightarrow> is_digit (digit_char k)"
proof -
  assume "k < 10"
  then have "digit_char k \<in> set (map digit_char [0, 1, 2, 3, 4, 5, 6, 7, 8, 9])"
    using below_ten[of k] by auto
  then show ?thesis by (simp only: digit_char_values is_digit_def)
qed

lemma of_char_digit_char: "k < 10 \<Longrightarrow> of_char (digit_char k) - 48 = k"
  by (simp add: digit_char_def)

lemma is_digit_not_sign: "is_digit c \<Longrightarrow> c \<noteq> CHR ''+'' \<and> c \<noteq> CHR ''-''"
  by (auto simp: is_digit_def)

lemma length_pad [simp]: "length (pad k n) = k"
  by (induction k arbitrary: n) simp_all

lemma digits_pad: "list_all is_digit (pad k n)"
  by (induction k arbitrary: n) (simp_all add: is_digit_digit_char)

lemma num_of_snoc: "num_of (cs @ [c]) = 10 * num_of cs + (of_char c - 48)"
  by (simp add: num_of_def)

lemma num_of_pad: "num_of (pad k n) = n mod 10 ^ k"
proof (induction k arbitrary: n)
  case 0
  show ?case by (simp add: num_of_def)
next
  case (Suc k)
  have "num_of (pad (Suc k) n) = 10 * ((n div 10) mod 10 ^ k) + n mod 10"
    by (simp add: num_of_snoc Suc.IH of_char_digit_char)
  also have "\<dots> = n mod 10 ^ Suc k"
    by (simp add: mod_mult2_eq)
  finally show ?case .
qed

lemma num_of_pad_small: "n < 10 ^ k \<Longrightarrow> num_of (pad k n) = n"
  by (simp add: num_of_pad)

section \<open>The fields of a date\<close>

lemma time_of_day_bounds:
  "0 \<le> HourFromTime t" "HourFromTime t < 24"
  "0 \<le> MinFromTime t" "MinFromTime t < 60"
  "0 \<le> SecFromTime t" "SecFromTime t < 60"
  "0 \<le> msFromTime t" "msFromTime t < 1000"
  by (simp_all add: HourFromTime_def MinFromTime_def SecFromTime_def msFromTime_def)

text \<open>The month is one of the twelve and the day is a day of that month in that year.\<close>

lemma month_date_bounds:
  "0 \<le> MonthFromTime t \<and> MonthFromTime t \<le> 11 \<and> 1 \<le> DateFromTime t
   \<and> nat (DateFromTime t) \<le> days_in_month (YearFromTime t) (nat (MonthFromTime t + 1))"
proof -
  define d where "d = DayWithinYear t"
  define l where "l = InLeapYear t"
  have l: "l = 0 \<or> l = 1" by (simp add: l_def InLeapYear_def)
  have ly: "(DaysInYear (YearFromTime t) = 366) = (l = 1)"
    by (simp add: l_def InLeapYear_def)
  have "DaysInYear (YearFromTime t) = 365 + l"
    using DaysInYear_cases[of "YearFromTime t"] by (auto simp: l_def InLeapYear_def)
  then have d: "0 \<le> d" "d < 365 + l"
    using DayWithinYear_bounds[of t] by (simp_all add: d_def)
  consider
    (m0) "d < 31"
    | (m1) "31 \<le> d" "d < 59 + l"
    | (m2) "59 + l \<le> d" "d < 90 + l"
    | (m3) "90 + l \<le> d" "d < 120 + l"
    | (m4) "120 + l \<le> d" "d < 151 + l"
    | (m5) "151 + l \<le> d" "d < 181 + l"
    | (m6) "181 + l \<le> d" "d < 212 + l"
    | (m7) "212 + l \<le> d" "d < 243 + l"
    | (m8) "243 + l \<le> d" "d < 273 + l"
    | (m9) "273 + l \<le> d" "d < 304 + l"
    | (m10) "304 + l \<le> d" "d < 334 + l"
    | (m11) "334 + l \<le> d"
    using d by linarith
  then show ?thesis
  proof cases
  case m0
  then have m: "MonthFromTime t = 0" and dt: "DateFromTime t = d + 1"
    using l by (auto simp: MonthFromTime_def DateFromTime_def Let_def d_def[symmetric] l_def[symmetric])
  show ?thesis
    using m0 d l ly by (auto simp: m dt days_in_month_def)
next
  case m1
  then have m: "MonthFromTime t = 1" and dt: "DateFromTime t = d - 30"
    using l by (auto simp: MonthFromTime_def DateFromTime_def Let_def d_def[symmetric] l_def[symmetric])
  show ?thesis
    using m1 d l ly by (auto simp: m dt days_in_month_def)
next
  case m2
  then have m: "MonthFromTime t = 2" and dt: "DateFromTime t = d - 58 - l"
    using l by (auto simp: MonthFromTime_def DateFromTime_def Let_def d_def[symmetric] l_def[symmetric])
  show ?thesis
    using m2 d l ly by (auto simp: m dt days_in_month_def)
next
  case m3
  then have m: "MonthFromTime t = 3" and dt: "DateFromTime t = d - 89 - l"
    using l by (auto simp: MonthFromTime_def DateFromTime_def Let_def d_def[symmetric] l_def[symmetric])
  show ?thesis
    using m3 d l ly by (auto simp: m dt days_in_month_def)
next
  case m4
  then have m: "MonthFromTime t = 4" and dt: "DateFromTime t = d - 119 - l"
    using l by (auto simp: MonthFromTime_def DateFromTime_def Let_def d_def[symmetric] l_def[symmetric])
  show ?thesis
    using m4 d l ly by (auto simp: m dt days_in_month_def)
next
  case m5
  then have m: "MonthFromTime t = 5" and dt: "DateFromTime t = d - 150 - l"
    using l by (auto simp: MonthFromTime_def DateFromTime_def Let_def d_def[symmetric] l_def[symmetric])
  show ?thesis
    using m5 d l ly by (auto simp: m dt days_in_month_def)
next
  case m6
  then have m: "MonthFromTime t = 6" and dt: "DateFromTime t = d - 180 - l"
    using l by (auto simp: MonthFromTime_def DateFromTime_def Let_def d_def[symmetric] l_def[symmetric])
  show ?thesis
    using m6 d l ly by (auto simp: m dt days_in_month_def)
next
  case m7
  then have m: "MonthFromTime t = 7" and dt: "DateFromTime t = d - 211 - l"
    using l by (auto simp: MonthFromTime_def DateFromTime_def Let_def d_def[symmetric] l_def[symmetric])
  show ?thesis
    using m7 d l ly by (auto simp: m dt days_in_month_def)
next
  case m8
  then have m: "MonthFromTime t = 8" and dt: "DateFromTime t = d - 242 - l"
    using l by (auto simp: MonthFromTime_def DateFromTime_def Let_def d_def[symmetric] l_def[symmetric])
  show ?thesis
    using m8 d l ly by (auto simp: m dt days_in_month_def)
next
  case m9
  then have m: "MonthFromTime t = 9" and dt: "DateFromTime t = d - 272 - l"
    using l by (auto simp: MonthFromTime_def DateFromTime_def Let_def d_def[symmetric] l_def[symmetric])
  show ?thesis
    using m9 d l ly by (auto simp: m dt days_in_month_def)
next
  case m10
  then have m: "MonthFromTime t = 10" and dt: "DateFromTime t = d - 303 - l"
    using l by (auto simp: MonthFromTime_def DateFromTime_def Let_def d_def[symmetric] l_def[symmetric])
  show ?thesis
    using m10 d l ly by (auto simp: m dt days_in_month_def)
next
  case m11
  then have m: "MonthFromTime t = 11" and dt: "DateFromTime t = d - 333 - l"
    using l by (auto simp: MonthFromTime_def DateFromTime_def Let_def d_def[symmetric] l_def[symmetric])
  show ?thesis
    using m11 d l ly by (auto simp: m dt days_in_month_def)
  qed
qed

section \<open>The timestamp is well formed\<close>

lemma pad2: "pad 2 n = [digit_char (n div 10 mod 10), digit_char (n mod 10)]"
  by (simp add: numeral_2_eq_2)

lemma pad3: "pad 3 n = [digit_char (n div 10 div 10 mod 10), digit_char (n div 10 mod 10),
                         digit_char (n mod 10)]"
  by (simp add: numeral_3_eq_3)

lemma iso_tail_wf_pads:
  assumes "1 \<le> mo" "mo \<le> 12" "1 \<le> da" "da \<le> days_in_month y mo"
    and "ho < 24" "mi < 60" "se < 60"
  shows "iso_tail_wf y
           (''-'' @ pad 2 mo @ ''-'' @ pad 2 da @ ''T'' @ pad 2 ho @ '':'' @ pad 2 mi
            @ '':'' @ pad 2 se @ ''.'' @ pad 3 ms @ ''Z'')"
proof -
  have dm: "days_in_month y mo \<le> 31" by (simp add: days_in_month_def)
  have small: "mo < 10 ^ 2" "da < 10 ^ 2" "ho < 10 ^ 2" "mi < 10 ^ 2" "se < 10 ^ 2"
    using assms dm by simp_all
  have n: "num_of (pad 2 mo) = mo" "num_of (pad 2 da) = da" "num_of (pad 2 ho) = ho"
    "num_of (pad 2 mi) = mi" "num_of (pad 2 se) = se"
    using small by (simp_all only: num_of_pad_small)
  have dg: "list_all is_digit (pad 2 mo @ pad 2 da @ pad 2 ho @ pad 2 mi @ pad 2 se @ pad 3 ms)"
    by (simp add: digits_pad)
  have "iso_tail_wf y
           (''-'' @ pad 2 mo @ ''-'' @ pad 2 da @ ''T'' @ pad 2 ho @ '':'' @ pad 2 mi
            @ '':'' @ pad 2 se @ ''.'' @ pad 3 ms @ ''Z'')
        = (list_all is_digit (pad 2 mo @ pad 2 da @ pad 2 ho @ pad 2 mi @ pad 2 se @ pad 3 ms)
           \<and> 1 \<le> num_of (pad 2 mo) \<and> num_of (pad 2 mo) \<le> 12
           \<and> 1 \<le> num_of (pad 2 da) \<and> num_of (pad 2 da) \<le> days_in_month y (num_of (pad 2 mo))
           \<and> num_of (pad 2 ho) < 24 \<and> num_of (pad 2 mi) < 60 \<and> num_of (pad 2 se) < 60)"
    by (simp add: iso_tail_wf_def Let_def pad2 pad3)
  then show ?thesis
    using dg assms by (simp only: n simp_thms)
qed

lemma wellformed_four_digits:
  assumes "y \<le> 9999" and "iso_tail_wf (int y) r"
  shows "iso8601_wellformed (pad 4 y @ r)"
proof -
  have ne: "pad 4 y \<noteq> []" by (metis length_pad length_0_conv zero_neq_numeral)
  then have "is_digit (hd (pad 4 y))"
    using digits_pad[of 4 y] by (cases "pad 4 y") simp_all
  then have sign: "hd (pad 4 y @ r) \<noteq> CHR ''+''" "hd (pad 4 y @ r) \<noteq> CHR ''-''"
    using ne is_digit_not_sign by simp_all
  have num: "num_of (pad 4 y) = y"
    using assms(1) by (simp add: num_of_pad)
  show ?thesis
    using ne sign assms(2)
    by (simp add: iso8601_wellformed_def list.case_eq_if Let_def digits_pad num)
qed

lemma wellformed_expanded:
  assumes "y < 1000000" and "c = CHR ''+'' \<or> (c = CHR ''-'' \<and> 0 < y)"
    and "iso_tail_wf ((if c = CHR ''-'' then - 1 else 1) * int y) r"
  shows "iso8601_wellformed (c # pad 6 y @ r)"
proof -
  have num: "num_of (pad 6 y) = y"
    using assms(1) by (simp add: num_of_pad)
  show ?thesis
    using assms(2,3) by (auto simp: iso8601_wellformed_def Let_def digits_pad num)
qed

text \<open>Every time value that \<^verbatim>\<open>new Date()\<close> can hold prints as a well-formed timestamp.\<close>

lemma toISOString_wellformed:
  assumes "valid_time t"
  shows "iso8601_wellformed (toISOString t)"
proof -
  define y where "y = YearFromTime t"
  define r where "r = ''-'' @ pad 2 (nat (MonthFromTime t + 1))
         @ ''-'' @ pad 2 (nat (DateFromTime t))
         @ ''T'' @ pad 2 (nat (HourFromTime t))
         @ '':'' @ pad 2 (nat (MinFromTime t))
         @ '':'' @ pad 2 (nat (SecFromTime t))
         @ ''.'' @ pad 3 (nat (msFromTime t))
         @ ''Z''"
  have yb: "- 271821 \<le> y" "y \<le> 275760"
    unfolding y_def by (rule YearFromTime_bounds[OF assms])+
  have md: "0 \<le> MonthFromTime t" "MonthFromTime t \<le> 11" "1 \<le> DateFromTime t"
    "nat (DateFromTime t) \<le> days_in_month y (nat (MonthFromTime t + 1))"
    using month_date_bounds[of t] by (simp_all add: y_def)
  note td = time_of_day_bounds[of t]
  have tail: "iso_tail_wf y r"
    unfolding r_def
    by (rule iso_tail_wf_pads) (use md td in simp_all)
  have str: "toISOString t =
      (if 0 \<le> y \<and> y \<le> 9999 then pad 4 (nat y)
       else (if y < 0 then ''-'' else ''+'') @ pad 6 (nat \<bar>y\<bar>)) @ r"
    by (simp add: toISOString_def Let_def y_def r_def)
  show ?thesis
  proof (cases "0 \<le> y \<and> y \<le> 9999")
    case True
    then have "nat y \<le> 9999" "int (nat y) = y" by linarith+
    then have "iso8601_wellformed (pad 4 (nat y) @ r)"
      using tail by (intro wellformed_four_digits) simp_all
    with True show ?thesis by (simp add: str)
  next
    case False
    show ?thesis
    proof (cases "y < 0")
      case True
      have a: "nat \<bar>y\<bar> < 1000000" using True yb by linarith
      have b: "CHR ''-'' = CHR ''+'' \<or> (CHR ''-'' = CHR ''-'' \<and> 0 < nat \<bar>y\<bar>)"
        using True by simp
      have "(if CHR ''-'' = CHR ''-'' then - 1 else 1) * int (nat \<bar>y\<bar>) = y"
        using True by simp
      then have c: "iso_tail_wf ((if CHR ''-'' = CHR ''-'' then - 1 else 1) * int (nat \<bar>y\<bar>)) r"
        using tail by (simp only:)
      have "iso8601_wellformed (CHR ''-'' # pad 6 (nat \<bar>y\<bar>) @ r)"
        using a b c by (rule wellformed_expanded)
      with True False show ?thesis by (simp add: str)
    next
      case pos: False
      have a: "nat \<bar>y\<bar> < 1000000" using pos yb by linarith
      have b: "CHR ''+'' = CHR ''+'' \<or> (CHR ''+'' = CHR ''-'' \<and> 0 < nat \<bar>y\<bar>)"
        by simp
      have "(if CHR ''+'' = CHR ''-'' then - 1 else 1) * int (nat \<bar>y\<bar>) = y"
        using pos by simp
      then have c: "iso_tail_wf ((if CHR ''+'' = CHR ''-'' then - 1 else 1) * int (nat \<bar>y\<bar>)) r"
        using tail by (simp only:)
      have "iso8601_wellformed (CHR ''+'' # pad 6 (nat \<bar>y\<bar>) @ r)"
        using a b c by (rule wellformed_expanded)
      with pos False show ?thesis by (simp add: str)
    qed
  qed
qed

section \<open>Chat events\<close>

text \<open>
  C6. Each upstream \<^verbatim>\<open>chat\<close> event of a session with a record runs one listener, which
  broadcasts one \<^verbatim>\<open>tiktok-message\<close> event and does nothing else. Its payload has
  \<^verbatim>\<open>username\<close> from \<^verbatim>\<open>uniqueId\<close>, \<^verbatim>\<open>nickname\<close> from \<^verbatim>\<open>nickname\<close>, \<^verbatim>\<open>message\<close> from \<^verbatim>\<open>comment\<close>,
  \<^verbatim>\<open>profilePicture\<close> from \<^verbatim>\<open>profilePictureUrl\<close>, and as \<^verbatim>\<open>timestamp\<close> the clock reading
  printed by \<^verbatim>\<open>toISOString\<close>, a well-formed ISO-8601 timestamp.
\<close>

theorem chat_event_one_broadcast:
  assumes "s = run evs init" and "registry_get u s = Some cid" and "valid_time now"
  shows "since s (upstream_emit cid ''chat'' d now s) =
           [Emit ''tiktok-message''
              (JObj [(''username'', obj_prop d ''uniqueId''),
                     (''nickname'', obj_prop d ''nickname''),
                     (''message'', obj_prop d ''comment''),
                     (''timestamp'', JStr (toISOString now)),
                     (''profilePicture'', obj_prop d ''profilePictureUrl'')])]
       \<and> iso8601_wellformed (toISOString now)
       \<and> activeConnections (upstream_emit cid ''chat'' d now s) = activeConnections s
       \<and> conns (upstream_emit cid ''chat'' d now s) = conns s"
proof -
  note w = registered_wired[OF assms(1,2)]
  note e = upstream_emit_wired(1)[OF w(2,3)]
  have "iso8601_wellformed (toISOString now)"
    using assms(3) by (rule toISOString_wellformed)
  then show ?thesis
    by (simp add: e since_def)
qed

theorem chat_event_one_broadcast_witness:
  "registry_get ''alice'' (run [StartChat (Some ''alice'') CtorReturns] init) = Some 0
   \<and> valid_time 1793651400123
   \<and> since (run [StartChat (Some ''alice'') CtorReturns] init)
        (upstream_emit 0 ''chat''
           [(''uniqueId'', JStr ''bob''), (''nickname'', JStr ''Bob''), (''comment'', JStr ''hey''),
            (''profilePictureUrl'', JStr ''https://p/bob.jpg'')]
           1793651400123 (run [StartChat (Some ''alice'') CtorReturns] init)) =
       [Emit ''tiktok-message''
          (JObj [(''username'', JStr ''bob''),
                 (''nickname'', JStr ''Bob''),
                 (''message'', JStr ''hey''),
                 (''timestamp'', JStr ''2026-11-02T20:30:00.123Z''),
                 (''profilePicture'', JStr ''https://p/bob.jpg'')])]
   \<and> iso8601_wellformed ''2026-11-02T20:30:00.123Z''"
proof -
  have h2: "registry_get ''alice'' (run [StartChat (Some ''alice'') CtorReturns] init) = Some 0"
    by code_simp
  have h3: "valid_time 1793651400123" by (simp add: valid_time_def)
  have t: "toISOString 1793651400123 = ''2026-11-02T20:30:00.123Z''" by code_simp
  have p: "obj_prop [(''uniqueId'', JStr ''bob''), (''nickname'', JStr ''Bob''),
                     (''comment'', JStr ''hey''),
                     (''profilePictureUrl'', JStr ''https://p/bob.jpg'')] ''uniqueId'' = JStr ''bob''"
    "obj_prop [(''uniqueId'', JStr ''bob''), (''nickname'', JStr ''Bob''),
                     (''comment'', JStr ''hey''),
                     (''profilePictureUrl'', JStr ''https://p/bob.jpg'')] ''nickname'' = JStr ''Bob''"
    "obj_prop [(''uniqueId'', JStr ''bob''), (''nickname'', JStr ''Bob''),
                     (''comment'', JStr ''hey''),
                     (''profilePictureUrl'', JStr ''https://p/bob.jpg'')] ''comment'' = JStr ''hey''"
    "obj_prop [(''uniqueId'', JStr ''bob''), (''nickname'', JStr ''Bob''),
                     (''comment'', JStr ''hey''),
                     (''profilePictureUrl'', JStr ''https://p/bob.jpg'')] ''profilePictureUrl''
       = JStr ''https://p/bob.jpg''"
    by (simp_all add: obj_prop_def)
  show ?thesis
    using h2 h3
      chat_event_one_broadcast[OF refl h2 h3,
        where d = "[(''uniqueId'', JStr ''bob''), (''nickname'', JStr ''Bob''),
                    (''comment'', JStr ''hey''),
                    (''profilePictureUrl'', JStr ''https://p/bob.jpg'')]"]
    unfolding t p by blast
qed

end
